theory Spec2Isabelle
  imports Complex_Main "HOL-Library.Char_ord" "HOL-Library.List_Lexorder"
begin

section \<open>Data model\<close>

text \<open>
  The script \<^verbatim>\<open>qb_pressure_analysis.py\<close> builds one pandas DataFrame of simulated
  plays and aggregates it. The values of floating-point columns are rationals (every
  double is one); the operations on doubles whose result depends on rounding belong to
  the library below. Integer columns are \<open>int\<close>, text columns are \<open>string\<close>. A Python
  exception is a value of type \<open>error\<close>.
\<close>

datatype error = ValueError | KeyError | TypeError | FileNotFoundError

record play =
  play_id :: int
  time_to_throw :: rat
  pressure_applied :: int
  time_to_pressure :: rat
  down :: int
  distance :: rat
  field_position :: rat
  score_diff :: rat
  quarter :: int
  def_alignment :: string
  rushers :: int
  completion :: int
  yards_gained :: rat
  sack :: int
  interception :: int

text \<open>
  \<open>self.data\<close>: the rows with the fifteen columns the generator creates, and the one
  column that \<open>time_to_throw_analysis\<close> adds later. \<open>time_bucket = None\<close> means the
  column does not exist; in an existing column a row holds \<open>None\<close> for NaN.
\<close>

record frame =
  rows :: "play list"
  time_bucket :: "string option list option"

section \<open>The library\<close>

text \<open>
  What the script uses and the repository does not contain is a parameter of the model.
  \<open>np.random\<close> is a global generator: a state type \<open>'g\<close> and one state-passing function
  for each sampler the script calls. \<open>np_choice\<close> returns the indices of the chosen
  entries; \<open>np_binomial\<close> takes one success probability per row, \<open>np_binomial1\<close> is the
  call without a size, which returns a single number. \<open>np_around\<close> is \<open>round(k)\<close> on a
  double, \<open>np_mean\<close> the mean of a non-empty column, \<open>np_add\<close> and \<open>np_sub\<close> are the sum
  and the difference of two doubles. \<open>savefig_ok\<close> says whether the file of line 330 can be
  written.
\<close>

record 'g np_random =
  np_seed :: "int \<Rightarrow> 'g"
  np_gamma :: "rat \<Rightarrow> rat \<Rightarrow> nat \<Rightarrow> 'g \<Rightarrow> rat list \<times> 'g"
  np_choice :: "rat list \<Rightarrow> nat \<Rightarrow> 'g \<Rightarrow> nat list \<times> 'g"
  np_uniform :: "rat \<Rightarrow> rat \<Rightarrow> nat \<Rightarrow> 'g \<Rightarrow> rat list \<times> 'g"
  np_normal :: "rat \<Rightarrow> rat \<Rightarrow> nat \<Rightarrow> 'g \<Rightarrow> rat list \<times> 'g"
  np_binomial :: "nat \<Rightarrow> rat list \<Rightarrow> 'g \<Rightarrow> int list \<times> 'g"
  np_binomial1 :: "nat \<Rightarrow> rat \<Rightarrow> 'g \<Rightarrow> int \<times> 'g"
  np_around :: "nat \<Rightarrow> rat \<Rightarrow> rat"
  np_mean :: "rat list \<Rightarrow> rat"
  np_add :: "rat \<Rightarrow> rat \<Rightarrow> rat"
  np_sub :: "rat \<Rightarrow> rat \<Rightarrow> rat"
  savefig_ok :: bool

text \<open>
  What is known of the library: shapes and ranges of the samples; rounding to decimals is
  monotone and, for up to three decimals, leaves a small whole number as it is; adding or
  subtracting zero changes nothing.
\<close>

definition np_ok :: "'g np_random \<Rightarrow> bool" where
  "np_ok np \<longleftrightarrow>
     (\<forall>a b n g. length (fst (np_gamma np a b n g)) = n
        \<and> (\<forall>x \<in> set (fst (np_gamma np a b n g)). 0 \<le> x)) \<and>
     (\<forall>p n g. length (fst (np_choice np p n g)) = n
        \<and> (\<forall>i \<in> set (fst (np_choice np p n g)). p \<noteq> [] \<longrightarrow> i < length p)) \<and>
     (\<forall>lo hi n g. length (fst (np_uniform np lo hi n g)) = n
        \<and> (\<forall>x \<in> set (fst (np_uniform np lo hi n g)). lo < hi \<longrightarrow> lo \<le> x \<and> x < hi)) \<and>
     (\<forall>mu sd n g. length (fst (np_normal np mu sd n g)) = n) \<and>
     (\<forall>k ps g. length (fst (np_binomial np k ps g)) = length ps
        \<and> (\<forall>x \<in> set (fst (np_binomial np k ps g)). 0 \<le> x \<and> x \<le> int k)) \<and>
     (\<forall>k p g. 0 \<le> fst (np_binomial1 np k p g) \<and> fst (np_binomial1 np k p g) \<le> int k) \<and>
     (\<forall>k x y. x \<le> y \<longrightarrow> np_around np k x \<le> np_around np k y) \<and>
     (\<forall>k m. k \<le> 3 \<and> \<bar>m\<bar> \<le> 10 \<longrightarrow> np_around np k (of_int m) = of_int m) \<and>
     (\<forall>x. np_add np x 0 = x \<and> np_sub np x 0 = x)"

definition choice :: "'g np_random \<Rightarrow> 'a list \<Rightarrow> rat list \<Rightarrow> nat \<Rightarrow> 'g \<Rightarrow> 'a list \<times> 'g" where
  "choice np a p n g = (let (idx, g') = np_choice np p n g in (map (\<lambda>i. a ! i) idx, g'))"

section \<open>Array helpers\<close>

text \<open>\<open>np.where\<close> on three arrays of one length; a scalar argument is a \<open>replicate\<close>.\<close>

definition np_where :: "bool list \<Rightarrow> 'a list \<Rightarrow> 'a list \<Rightarrow> 'a list" where
  "np_where c xs ys = map (\<lambda>i. if c ! i then xs ! i else ys ! i) [0..<length c]"

definition np_clip :: "rat \<Rightarrow> rat \<Rightarrow> rat \<Rightarrow> rat" where
  "np_clip x lo hi = min (max x lo) hi"

text \<open>A comparison result used as a number: \<open>True\<close> is 1, \<open>False\<close> is 0.\<close>

definition as_num :: "bool \<Rightarrow> rat" where
  "as_num b = (if b then 1 else 0)"

text \<open>
  Rounding an exact number to \<open>k\<close> decimals, a tie going to the even neighbour. The
  rounding of the script is \<open>np_around\<close>, on doubles; this exact one serves the small
  library at the end of the definitions.
\<close>

definition round_half_even :: "rat \<Rightarrow> int" where
  "round_half_even x =
     (let f = \<lfloor>x\<rfloor>; d = x - of_int f
      in if d < 1 / 2 then f else if d > 1 / 2 then f + 1 else if even f then f else f + 1)"

definition decimal_round :: "nat \<Rightarrow> rat \<Rightarrow> rat" where
  "decimal_round k x = of_int (round_half_even (x * 10 ^ k)) / 10 ^ k"

text \<open>
  \<open>df.loc[mask, col] = values\<close>: the selected rows take the values in order. numpy
  returns exactly as many values as the mask selects; rows for which no value is left
  keep theirs.
\<close>

fun assign_masked :: "bool list \<Rightarrow> 'a list \<Rightarrow> 'a list \<Rightarrow> 'a list" where
  "assign_masked (m # ms) (y # ys) vs =
     (if m then (case vs of [] \<Rightarrow> y # assign_masked ms ys [] | v # vs' \<Rightarrow> v # assign_masked ms ys vs')
      else y # assign_masked ms ys vs)"
| "assign_masked _ ys _ = ys"

text \<open>\<open>df.loc[mask, col] = v\<close> with one value for all selected rows.\<close>

definition assign_scalar :: "bool list \<Rightarrow> 'a list \<Rightarrow> 'a \<Rightarrow> 'a list" where
  "assign_scalar sel ys v = map (\<lambda>i. if sel ! i then v else ys ! i) [0..<length ys]"

section \<open>The generator \<open>create_realistic_nfl_data\<close>\<close>

text \<open>Lines 46 to 78: the sampled columns, in the order the dictionary lists them.\<close>

record inputs =
  in_time_to_throw :: "rat list"
  in_pressure_applied :: "int list"
  in_time_to_pressure :: "rat list"
  in_down :: "int list"
  in_distance :: "rat list"
  in_field_position :: "rat list"
  in_score_diff :: "rat list"
  in_quarter :: "int list"
  in_def_alignment :: "string list"
  in_rushers :: "int list"

definition sample_inputs :: "'g np_random \<Rightarrow> nat \<Rightarrow> 'g \<Rightarrow> inputs \<times> 'g" where
  "sample_inputs np n g =
     (let (ttt, g1) = np_gamma np 2 (5 / 4) n g;
          (pa, g2) = choice np [0, 1] [13 / 20, 7 / 20] n g1;
          (ttp, g3) = np_gamma np (3 / 2) (3 / 2) n g2;
          (dn, g4) = choice np [1, 2, 3, 4] [7 / 20, 3 / 10, 1 / 4, 1 / 10] n g3;
          (dist, g5) = np_gamma np 2 5 n g4;
          (fp, g6) = np_uniform np 5 95 n g5;
          (sd, g7) = np_normal np 0 10 n g6;
          (qt, g8) = choice np [1, 2, 3, 4] [1 / 4, 1 / 4, 1 / 4, 1 / 4] n g7;
          (al, g9) = choice np [''4-3 Base'', ''3-4 Base'', ''Nickel'', ''Dime'', ''Blitz'']
                       [3 / 20, 3 / 20, 7 / 20, 1 / 5, 3 / 20] n g8;
          (ru, g10) = choice np [3, 4, 5, 6] [1 / 10, 1 / 2, 3 / 10, 1 / 10] n g9
      in (\<lparr>in_time_to_throw = ttt, in_pressure_applied = pa, in_time_to_pressure = ttp,
            in_down = dn, in_distance = dist, in_field_position = fp, in_score_diff = sd,
            in_quarter = qt, in_def_alignment = al, in_rushers = ru\<rparr>, g10))"

text \<open>Lines 85 to 98: the completion column.\<close>

definition base_completion :: rat where
  "base_completion = 13 / 20"

definition pressure_completion_prob :: "rat \<Rightarrow> rat" where
  "pressure_completion_prob t =
     np_clip (base_completion - 3 / 20 - as_num (t < 2) * (1 / 10)) (3 / 10) (9 / 10)"

definition clean_completion_prob :: "rat \<Rightarrow> rat" where
  "clean_completion_prob t =
     np_clip (base_completion + as_num (t > 5 / 2) * (1 / 20)) (3 / 10) (9 / 10)"

definition draw_completion :: "'g np_random \<Rightarrow> inputs \<Rightarrow> 'g \<Rightarrow> int list \<times> 'g" where
  "draw_completion np ins g =
     (let (cp, g1) = np_binomial np 1 (map pressure_completion_prob (in_time_to_throw ins)) g;
          (cn, g2) = np_binomial np 1 (map clean_completion_prob (in_time_to_throw ins)) g1
      in (np_where (map (\<lambda>v. v = 1) (in_pressure_applied ins)) cp cn, g2))"

text \<open>
  Lines 101 to 109: the yards column. A comparison result times a double is that double
  or zero, exactly; the sum and the difference are those of doubles.
\<close>

definition draw_yards :: "'g np_random \<Rightarrow> nat \<Rightarrow> inputs \<Rightarrow> int list \<Rightarrow> 'g \<Rightarrow> rat list \<times> 'g" where
  "draw_yards np n ins cpl g =
     (let (base, g1) = np_gamma np 2 3 n g;
          (bonus, g2) = np_gamma np 1 2 n g1;
          (pen, g3) = np_uniform np 0 3 n g2
      in (np_where (map (\<lambda>c. c = 1) cpl)
            (map (\<lambda>i. np_sub np
                         (np_add np (base ! i) (as_num (in_time_to_throw ins ! i > 5 / 2) * bonus ! i))
                         (as_num (in_pressure_applied ins ! i = 1) * pen ! i)) [0..<n])
            (replicate (length cpl) 0), g3))"

text \<open>Lines 112 to 118: the sack column. The draw has no size: one number for all rows.\<close>

definition sack_possible :: "inputs \<Rightarrow> nat \<Rightarrow> bool" where
  "sack_possible ins i \<longleftrightarrow>
     in_pressure_applied ins ! i = 1 \<and> in_time_to_pressure ins ! i < 2
       \<and> in_time_to_throw ins ! i > in_time_to_pressure ins ! i"

definition draw_sack :: "'g np_random \<Rightarrow> nat \<Rightarrow> inputs \<Rightarrow> 'g \<Rightarrow> int list \<times> 'g" where
  "draw_sack np n ins g =
     (let (s, g1) = np_binomial1 np 1 (2 / 5) g
      in (np_where (map (sack_possible ins) [0..<n]) (replicate n s) (replicate n 0), g1))"

text \<open>Lines 121 and 122: yards and completion of the sacked rows.\<close>

definition adjust_for_sacks ::
  "'g np_random \<Rightarrow> int list \<Rightarrow> rat list \<Rightarrow> int list \<Rightarrow> 'g \<Rightarrow> (rat list \<times> int list) \<times> 'g" where
  "adjust_for_sacks np sk yards cpl g =
     (let sel = map (\<lambda>s. s = 1) sk;
          (u, g1) = np_uniform np 3 8 (length (filter id sel)) g
      in ((assign_masked sel yards (map uminus u), assign_scalar sel cpl 0), g1))"

text \<open>Lines 125 to 129: the interception column, again from two single draws.\<close>

definition draw_interception ::
  "'g np_random \<Rightarrow> nat \<Rightarrow> inputs \<Rightarrow> int list \<Rightarrow> int list \<Rightarrow> 'g \<Rightarrow> int list \<times> 'g" where
  "draw_interception np n ins cpl sk g =
     (let (a, g1) = np_binomial1 np 1 (3 / 100) g;
          (b, g2) = np_binomial1 np 1 (1 / 100) g1
      in (np_where (map (\<lambda>i. in_pressure_applied ins ! i = 1 \<and> cpl ! i = 0 \<and> sk ! i = 0) [0..<n])
            (replicate n a) (replicate n b), g2))"

text \<open>The columns before the rounding of lines 132 to 135.\<close>

record columns =
  col_inputs :: inputs
  col_completion_drawn :: "int list"
  col_completion :: "int list"
  col_yards :: "rat list"
  col_sack :: "int list"
  col_interception :: "int list"

definition generate_columns :: "'g np_random \<Rightarrow> nat \<Rightarrow> 'g \<Rightarrow> columns \<times> 'g" where
  "generate_columns np n g =
     (let (ins, g1) = sample_inputs np n g;
          (comp0, g2) = draw_completion np ins g1;
          (yards0, g3) = draw_yards np n ins comp0 g2;
          (sk, g4) = draw_sack np n ins g3;
          ((yards1, comp1), g5) = adjust_for_sacks np sk yards0 comp0 g4;
          (intc, g6) = draw_interception np n ins comp1 sk g5
      in (\<lparr>col_inputs = ins, col_completion_drawn = comp0, col_completion = comp1,
            col_yards = yards1, col_sack = sk, col_interception = intc\<rparr>, g6))"

text \<open>
  Names for the sampled columns and for the state of the generator at the start of each
  stage of \<open>generate_columns\<close>, and for the numbers each stage draws there.
\<close>

definition gen_inputs :: "'g np_random \<Rightarrow> nat \<Rightarrow> 'g \<Rightarrow> inputs" where
  "gen_inputs np n g = fst (sample_inputs np n g)"

definition rng_at_completion :: "'g np_random \<Rightarrow> nat \<Rightarrow> 'g \<Rightarrow> 'g" where
  "rng_at_completion np n g = snd (sample_inputs np n g)"

definition drawn_pressure_completion :: "'g np_random \<Rightarrow> nat \<Rightarrow> 'g \<Rightarrow> int list" where
  "drawn_pressure_completion np n g =
     fst (np_binomial np 1 (map pressure_completion_prob (in_time_to_throw (gen_inputs np n g)))
            (rng_at_completion np n g))"

definition drawn_clean_completion :: "'g np_random \<Rightarrow> nat \<Rightarrow> 'g \<Rightarrow> int list" where
  "drawn_clean_completion np n g =
     fst (np_binomial np 1 (map clean_completion_prob (in_time_to_throw (gen_inputs np n g)))
            (snd (np_binomial np 1 (map pressure_completion_prob (in_time_to_throw (gen_inputs np n g)))
                    (rng_at_completion np n g))))"

definition rng_at_yards :: "'g np_random \<Rightarrow> nat \<Rightarrow> 'g \<Rightarrow> 'g" where
  "rng_at_yards np n g = snd (draw_completion np (gen_inputs np n g) (rng_at_completion np n g))"

definition drawn_base_yards :: "'g np_random \<Rightarrow> nat \<Rightarrow> 'g \<Rightarrow> rat list" where
  "drawn_base_yards np n g = fst (np_gamma np 2 3 n (rng_at_yards np n g))"

definition drawn_bonus_yards :: "'g np_random \<Rightarrow> nat \<Rightarrow> 'g \<Rightarrow> rat list" where
  "drawn_bonus_yards np n g = fst (np_gamma np 1 2 n (snd (np_gamma np 2 3 n (rng_at_yards np n g))))"

definition drawn_penalty :: "'g np_random \<Rightarrow> nat \<Rightarrow> 'g \<Rightarrow> rat list" where
  "drawn_penalty np n g =
     fst (np_uniform np 0 3 n (snd (np_gamma np 1 2 n (snd (np_gamma np 2 3 n (rng_at_yards np n g))))))"

definition rng_at_sack :: "'g np_random \<Rightarrow> nat \<Rightarrow> 'g \<Rightarrow> 'g" where
  "rng_at_sack np n g =
     snd (np_uniform np 0 3 n (snd (np_gamma np 1 2 n (snd (np_gamma np 2 3 n (rng_at_yards np n g))))))"

definition drawn_sack :: "'g np_random \<Rightarrow> nat \<Rightarrow> 'g \<Rightarrow> int" where
  "drawn_sack np n g = fst (np_binomial1 np 1 (2 / 5) (rng_at_sack np n g))"

definition drawn_completion :: "'g np_random \<Rightarrow> nat \<Rightarrow> 'g \<Rightarrow> int list" where
  "drawn_completion np n g =
     np_where (map (\<lambda>v. v = 1) (in_pressure_applied (gen_inputs np n g)))
       (drawn_pressure_completion np n g) (drawn_clean_completion np n g)"

definition completed_yards :: "'g np_random \<Rightarrow> nat \<Rightarrow> 'g \<Rightarrow> nat \<Rightarrow> rat" where
  "completed_yards np n g i =
     np_sub np
       (np_add np (drawn_base_yards np n g ! i)
          (as_num (in_time_to_throw (gen_inputs np n g) ! i > 5 / 2) * drawn_bonus_yards np n g ! i))
       (as_num (in_pressure_applied (gen_inputs np n g) ! i = 1) * drawn_penalty np n g ! i)"

definition sack_column :: "'g np_random \<Rightarrow> nat \<Rightarrow> 'g \<Rightarrow> int list" where
  "sack_column np n g =
     np_where (map (sack_possible (gen_inputs np n g)) [0..<n])
       (replicate n (drawn_sack np n g)) (replicate n 0)"

definition drawn_sack_yards :: "'g np_random \<Rightarrow> nat \<Rightarrow> 'g \<Rightarrow> rat list" where
  "drawn_sack_yards np n g =
     fst (np_uniform np 3 8 (length (filter id (map (\<lambda>s. s = 1) (sack_column np n g))))
            (snd (np_binomial1 np 1 (2 / 5) (rng_at_sack np n g))))"

text \<open>The lengths of the fourteen columns next to \<open>play_id\<close>.\<close>

definition column_lengths :: "columns \<Rightarrow> nat list" where
  "column_lengths c =
     [length (in_time_to_throw (col_inputs c)), length (in_pressure_applied (col_inputs c)),
      length (in_time_to_pressure (col_inputs c)), length (in_down (col_inputs c)),
      length (in_distance (col_inputs c)), length (in_field_position (col_inputs c)),
      length (in_score_diff (col_inputs c)), length (in_quarter (col_inputs c)),
      length (in_def_alignment (col_inputs c)), length (in_rushers (col_inputs c)),
      length (col_completion c), length (col_yards c), length (col_sack c),
      length (col_interception c)]"

text \<open>Row \<open>i\<close> of the returned table: lines 47 and 132 to 135 applied to the columns.\<close>

definition make_play :: "'g np_random \<Rightarrow> columns \<Rightarrow> nat \<Rightarrow> play" where
  "make_play np c i =
     \<lparr>play_id = int i + 1,
      time_to_throw = np_around np 2 (in_time_to_throw (col_inputs c) ! i),
      pressure_applied = in_pressure_applied (col_inputs c) ! i,
      time_to_pressure = np_around np 2 (in_time_to_pressure (col_inputs c) ! i),
      down = in_down (col_inputs c) ! i,
      distance = np_around np 1 (in_distance (col_inputs c) ! i),
      field_position = in_field_position (col_inputs c) ! i,
      score_diff = in_score_diff (col_inputs c) ! i,
      quarter = in_quarter (col_inputs c) ! i,
      def_alignment = in_def_alignment (col_inputs c) ! i,
      rushers = in_rushers (col_inputs c) ! i,
      completion = col_completion c ! i,
      yards_gained = np_around np 1 (col_yards c ! i),
      sack = col_sack c ! i,
      interception = col_interception c ! i\<rparr>"

text \<open>
  The whole function. A negative \<open>n_plays\<close> makes the first sampler call raise
  \<open>ValueError\<close> (negative dimensions) before any number is drawn.
\<close>

definition create_realistic_nfl_data :: "'g np_random \<Rightarrow> int \<Rightarrow> 'g \<Rightarrow> (error + frame) \<times> 'g" where
  "create_realistic_nfl_data np n_plays g =
     (if n_plays < 0 then (Inl ValueError, g)
      else let n = nat n_plays;
               (c, g') = generate_columns np n g
           in (Inr \<lparr>rows = map (make_play np c) [0..<n], time_bucket = None\<rparr>, g'))"

definition default_n_plays :: int where
  "default_n_plays = 2500"

text \<open>\<open>__init__\<close>: seed the global generator with 42, then generate with the default size.\<close>

definition nfl_init :: "'g np_random \<Rightarrow> 'g \<Rightarrow> (error + frame) \<times> 'g" where
  "nfl_init np g = create_realistic_nfl_data np default_n_plays (np_seed np 42)"

section \<open>Aggregation helpers\<close>

text \<open>
  \<open>pd.cut\<close> with labels: the bins are open on the left and closed on the right; a value
  in no bin gets NaN (\<open>None\<close>).
\<close>

fun pd_cut :: "rat list \<Rightarrow> 'l list \<Rightarrow> rat \<Rightarrow> 'l option" where
  "pd_cut (lo # hi # bs) (l # ls) x = (if lo < x \<and> x \<le> hi then Some l else pd_cut (hi # bs) ls x)"
| "pd_cut _ _ _ = None"

text \<open>The mean of a column over a group; NaN (\<open>None\<close>) for an empty group.\<close>

definition mean_of :: "'g np_random \<Rightarrow> ('a \<Rightarrow> rat) \<Rightarrow> 'a list \<Rightarrow> rat option" where
  "mean_of np f xs = (if xs = [] then None else Some (np_mean np (map f xs)))"

definition round_opt :: "'g np_random \<Rightarrow> nat \<Rightarrow> rat option \<Rightarrow> rat option" where
  "round_opt np k m = map_option (np_around np k) m"

text \<open>The keys of a \<open>groupby\<close> on an ordinary column: the values that occur, sorted.\<close>

definition group_keys :: "('a \<Rightarrow> 'k::linorder) \<Rightarrow> 'a list \<Rightarrow> 'k list" where
  "group_keys f xs = sort (remdups (map f xs))"

section \<open>\<open>pressure_impact_summary\<close>\<close>

record pressure_stat =
  ps_completion :: "rat option"
  ps_yards :: "rat option"
  ps_sack :: "rat option"
  ps_interception :: "rat option"
  ps_plays :: nat

definition pressure_group_stat :: "'g np_random \<Rightarrow> play list \<Rightarrow> pressure_stat" where
  "pressure_group_stat np ps =
     \<lparr>ps_completion = round_opt np 3 (mean_of np (\<lambda>p. of_int (completion p)) ps),
      ps_yards = round_opt np 3 (mean_of np yards_gained ps),
      ps_sack = round_opt np 3 (mean_of np (\<lambda>p. of_int (sack p)) ps),
      ps_interception = round_opt np 3 (mean_of np (\<lambda>p. of_int (interception p)) ps),
      ps_plays = length ps\<rparr>"

text \<open>
  Lines 142 to 151 and 169. Setting the index to two labels raises \<open>ValueError\<close> unless
  the grouping produced exactly two rows. The t-test of lines 160 to 167 is only printed.
\<close>

definition pressure_impact_summary :: "'g np_random \<Rightarrow> frame \<Rightarrow> (error + (string \<times> pressure_stat) list) \<times> frame" where
  "pressure_impact_summary np d =
     (let ks = group_keys pressure_applied (rows d);
          stats = map (\<lambda>k. pressure_group_stat np (filter (\<lambda>p. pressure_applied p = k) (rows d))) ks
      in if length stats \<noteq> 2 then (Inl ValueError, d)
         else (Inr (zip [''No Pressure'', ''Pressure Applied''] stats), d))"

section \<open>\<open>time_to_throw_analysis\<close>\<close>

definition time_bins :: "rat list" where
  "time_bins = [0, 2, 5 / 2, 3, 10]"

definition time_labels :: "string list" where
  "time_labels = [''Quick (<2.0s)'', ''Normal (2.0-2.5s)'', ''Extended (2.5-3.0s)'', ''Very Long (>3.0s)'']"

record time_stat =
  ts_completion :: "rat option"
  ts_yards :: "rat option"
  ts_plays :: nat

definition time_group_stat :: "'g np_random \<Rightarrow> play list \<Rightarrow> time_stat" where
  "time_group_stat np ps =
     \<lparr>ts_completion = round_opt np 3 (mean_of np (\<lambda>p. of_int (completion p)) ps),
      ts_yards = round_opt np 3 (mean_of np yards_gained ps),
      ts_plays = length ps\<rparr>"

text \<open>
  The rows of the group of bucket \<open>b\<close> and pressure value \<open>k\<close>, the bucket read from the
  stored column. A row whose bucket is NaN belongs to no group.
\<close>

definition bucket_group :: "play list \<Rightarrow> string option list \<Rightarrow> string \<Rightarrow> int \<Rightarrow> play list" where
  "bucket_group rs tb b k =
     map fst (filter (\<lambda>(p, c). c = Some b \<and> pressure_applied p = k) (zip rs tb))"

text \<open>
  \<open>groupby(['time_bucket', 'pressure_applied'])\<close> on a categorical and an ordinary
  column: one group for every category and every pressure value that occurs (the pandas
  default \<open>observed=False\<close>), empty ones included.
\<close>

definition bucket_groups :: "play list \<Rightarrow> string option list \<Rightarrow> ((string \<times> int) \<times> play list) list" where
  "bucket_groups rs tb =
     concat (map (\<lambda>b. map (\<lambda>k. ((b, k), bucket_group rs tb b k)) (group_keys pressure_applied rs))
       time_labels)"

text \<open>Lines 175 to 185 and 193: the bucket column is stored in \<open>self.data\<close>.\<close>

definition time_to_throw_analysis ::
  "'g np_random \<Rightarrow> frame \<Rightarrow> (error + ((string \<times> int) \<times> time_stat) list) \<times> frame" where
  "time_to_throw_analysis np d =
     (let tb = map (\<lambda>p. pd_cut time_bins time_labels (time_to_throw p)) (rows d);
          d' = d\<lparr>time_bucket := Some tb\<rparr>
      in (Inr (map (\<lambda>(k, ps). (k, time_group_stat np ps)) (bucket_groups (rows d') tb)), d'))"

section \<open>\<open>defensive_alignment_effectiveness\<close>\<close>

record def_stat =
  ds_sack :: "rat option"
  ds_incompletion :: "rat option"
  ds_interception :: "rat option"
  ds_plays :: nat

definition def_group_stat :: "'g np_random \<Rightarrow> play list \<Rightarrow> def_stat" where
  "def_group_stat np ps =
     \<lparr>ds_sack = round_opt np 3 (mean_of np (\<lambda>p. of_int (sack p)) ps),
      ds_incompletion = round_opt np 3 (map_option (\<lambda>m. np_sub np 1 m) (mean_of np (\<lambda>p. of_int (completion p)) ps)),
      ds_interception = round_opt np 3 (mean_of np (\<lambda>p. of_int (interception p)) ps),
      ds_plays = length ps\<rparr>"

definition pressure_plays :: "frame \<Rightarrow> play list" where
  "pressure_plays d = filter (\<lambda>p. pressure_applied p = 1) (rows d)"

text \<open>A sort key for a statistic that is never NaN on a non-empty group.\<close>

definition stat_value :: "rat option \<Rightarrow> rat" where
  "stat_value m = (case m of None \<Rightarrow> 0 | Some v \<Rightarrow> v)"

text \<open>
  Lines 198 to 206 and 214. The rows are sorted by sack rate, highest first; rows with
  equal rates keep the order of their keys.
\<close>

definition defensive_alignment_effectiveness ::
  "'g np_random \<Rightarrow> frame \<Rightarrow> (error + (string \<times> def_stat) list) \<times> frame" where
  "defensive_alignment_effectiveness np d =
     (let pp = pressure_plays d;
          stats = map (\<lambda>k. (k, def_group_stat np (filter (\<lambda>p. def_alignment p = k) pp)))
                    (group_keys def_alignment pp)
      in (Inr (sort_key (\<lambda>(k, s). - stat_value (ds_sack s)) stats), d))"

section \<open>\<open>optimal_pressure_timing\<close>\<close>

definition timing_bins :: "rat list" where
  "timing_bins = [0, 3 / 2, 5 / 2, 7 / 2, 10]"

definition timing_labels :: "string list" where
  "timing_labels = [''Immediate (<1.5s)'', ''Quick (1.5-2.5s)'', ''Delayed (2.5-3.5s)'', ''Late (>3.5s)'']"

definition successful_pressure :: "play \<Rightarrow> int" where
  "successful_pressure p = (if completion p = 0 \<or> sack p = 1 \<or> interception p = 1 then 1 else 0)"

record timing_stat =
  tm_success :: "rat option"
  tm_sack :: "rat option"
  tm_yards :: "rat option"
  tm_plays :: nat

definition timing_group_stat :: "'g np_random \<Rightarrow> play list \<Rightarrow> timing_stat" where
  "timing_group_stat np ps =
     \<lparr>tm_success = round_opt np 3 (mean_of np (\<lambda>p. of_int (successful_pressure p)) ps),
      tm_sack = round_opt np 3 (mean_of np (\<lambda>p. of_int (sack p)) ps),
      tm_yards = round_opt np 3 (mean_of np yards_gained ps),
      tm_plays = length ps\<rparr>"

definition timing_group :: "string list \<Rightarrow> play list \<Rightarrow> string \<Rightarrow> play list" where
  "timing_group labels pp l = filter (\<lambda>p. pd_cut timing_bins labels (time_to_pressure p) = Some l) pp"

text \<open>
  Lines 220 to 241 and 249, on a copy of the pressure plays: one row for every timing
  category, empty ones included.
\<close>

definition optimal_pressure_timing :: "'g np_random \<Rightarrow> frame \<Rightarrow> (error + (string \<times> timing_stat) list) \<times> frame" where
  "optimal_pressure_timing np d =
     (let pp = pressure_plays d
      in (Inr (map (\<lambda>l. (l, timing_group_stat np (timing_group timing_labels pp l))) timing_labels), d))"

section \<open>\<open>create_visualizations\<close>\<close>

text \<open>
  The figure is modelled by the six data series handed to matplotlib; rendering is not
  modelled. Whether \<open>savefig\<close> can write its file is \<open>savefig_ok\<close> of the library.
\<close>

record figure =
  fig_completion_bars :: "rat option list"
  fig_yards_bars :: "rat option list"
  fig_time_hist :: "rat list \<times> rat list"
  fig_time_completion :: "((string \<times> int) \<times> rat option) list"
  fig_alignment_success :: "(string \<times> rat option) list"
  fig_timing_success :: "(string \<times> rat option) list"

text \<open>
  \<open>ax.bar\<close> with two labels: two heights are drawn as they are, one height is broadcast
  to both bars, any other number of heights raises \<open>ValueError\<close>.
\<close>

definition bar2 :: "'a list \<Rightarrow> error + 'a list" where
  "bar2 hs = (if length hs = 2 then Inr hs else if length hs = 1 then Inr (hs @ hs) else Inl ValueError)"

definition pressure_means :: "'g np_random \<Rightarrow> (play \<Rightarrow> rat) \<Rightarrow> frame \<Rightarrow> rat option list" where
  "pressure_means np f d =
     map (\<lambda>k. mean_of np f (filter (\<lambda>p. pressure_applied p = k) (rows d)))
       (group_keys pressure_applied (rows d))"

definition pressure_or_incomplete :: "play \<Rightarrow> rat" where
  "pressure_or_incomplete p = (if sack p = 1 \<or> completion p = 0 then 1 else 0)"

definition alignment_success :: "'g np_random \<Rightarrow> frame \<Rightarrow> (string \<times> rat option) list" where
  "alignment_success np d =
     (let pp = pressure_plays d
      in sort_key (\<lambda>(k, m). stat_value m)
           (map (\<lambda>k. (k, mean_of np pressure_or_incomplete (filter (\<lambda>p. def_alignment p = k) pp)))
              (group_keys def_alignment pp)))"

definition plot_timing_labels :: "string list" where
  "plot_timing_labels = [''<1.5s'', ''1.5-2.5s'', ''2.5-3.5s'', ''>3.5s'']"

definition timing_success :: "'g np_random \<Rightarrow> frame \<Rightarrow> (string \<times> rat option) list" where
  "timing_success np d =
     (let pp = pressure_plays d
      in map (\<lambda>l. (l, mean_of np pressure_or_incomplete (timing_group plot_timing_labels pp l)))
           plot_timing_labels)"

text \<open>
  Lines 254 to 333. Panel 4 groups \<open>self.data\<close> by the two keys \<open>time_bucket\<close> and
  \<open>pressure_applied\<close>. On a frame without the column \<open>time_bucket\<close> this raises
  \<open>KeyError\<close>, except on a frame of exactly two rows, where pandas takes the list of two
  keys for one label per row and the \<open>unstack\<close> that follows raises \<open>ValueError\<close>. Panel 5
  sorts the result of \<open>apply\<close>, which is a frame when there is no pressure play, and
  \<open>sort_values\<close> without a column raises \<open>TypeError\<close>. Line 330 writes the figure to
  a fixed directory and raises \<open>FileNotFoundError\<close> when it cannot.
\<close>

definition create_visualizations :: "'g np_random \<Rightarrow> frame \<Rightarrow> (error + figure) \<times> frame" where
  "create_visualizations np d =
     (case bar2 (pressure_means np (\<lambda>p. of_int (completion p)) d) of
        Inl e \<Rightarrow> (Inl e, d)
      | Inr cb \<Rightarrow>
          (case bar2 (pressure_means np yards_gained d) of
             Inl e \<Rightarrow> (Inl e, d)
           | Inr yb \<Rightarrow>
               (case time_bucket d of
                  None \<Rightarrow> (Inl (if length (rows d) = 2 then ValueError else KeyError), d)
                | Some tb \<Rightarrow>
                    if pressure_plays d = [] then (Inl TypeError, d)
                    else if \<not> savefig_ok np then (Inl FileNotFoundError, d)
                    else
                    (Inr \<lparr>fig_completion_bars = cb,
                          fig_yards_bars = yb,
                          fig_time_hist =
                            (map time_to_throw (filter (\<lambda>p. pressure_applied p = 0) (rows d)),
                             map time_to_throw (filter (\<lambda>p. pressure_applied p = 1) (rows d))),
                          fig_time_completion =
                            map (\<lambda>(k, ps). (k, mean_of np (\<lambda>p. of_int (completion p)) ps))
                              (bucket_groups (rows d) tb),
                          fig_alignment_success = alignment_success np d,
                          fig_timing_success = timing_success np d\<rparr>, d))))"

section \<open>The operations on one analysis object\<close>

datatype report =
    PressureStats "(string \<times> pressure_stat) list"
  | TimeStats "((string \<times> int) \<times> time_stat) list"
  | DefStats "(string \<times> def_stat) list"
  | TimingStats "(string \<times> timing_stat) list"
  | Figure figure
  | Insights

datatype operation = PIS | TTA | DAE | OPT | VIS | INS

definition tagged :: "('a \<Rightarrow> report) \<Rightarrow> (error + 'a) \<times> frame \<Rightarrow> (error + report) \<times> frame" where
  "tagged c r = (map_sum id c (fst r), snd r)"

text \<open>\<open>generate_insights\<close> (\<open>INS\<close>) prints and returns a fixed text.\<close>

fun run_op :: "'g np_random \<Rightarrow> operation \<Rightarrow> frame \<Rightarrow> (error + report) \<times> frame" where
  "run_op np PIS d = tagged PressureStats (pressure_impact_summary np d)"
| "run_op np TTA d = tagged TimeStats (time_to_throw_analysis np d)"
| "run_op np DAE d = tagged DefStats (defensive_alignment_effectiveness np d)"
| "run_op np OPT d = tagged TimingStats (optimal_pressure_timing np d)"
| "run_op np VIS d = tagged Figure (create_visualizations np d)"
| "run_op np INS d = (Inr Insights, d)"

text \<open>The order in which \<open>main\<close> calls them (lines 405 to 420).\<close>

definition main_order :: "operation list" where
  "main_order = [PIS, TTA, DAE, OPT, VIS, INS]"

text \<open>\<open>self.data\<close> after a sequence of calls.\<close>

fun exec_ops :: "'g np_random \<Rightarrow> operation list \<Rightarrow> frame \<Rightarrow> frame" where
  "exec_ops np [] d = d"
| "exec_ops np (x # xs) d = exec_ops np xs (snd (run_op np x d))"

text \<open>\<open>self.data\<close> once \<open>time_to_throw_analysis\<close> has stored its bucket column.\<close>

definition stored_buckets :: "frame \<Rightarrow> frame" where
  "stored_buckets d =
     d\<lparr>time_bucket := Some (map (\<lambda>p. pd_cut time_bins time_labels (time_to_throw p)) (rows d))\<rparr>"

text \<open>What the first call of \<open>op\<close> in a sequence of calls returns or raises.\<close>

fun outcome_in ::
  "'g np_random \<Rightarrow> operation list \<Rightarrow> frame \<Rightarrow> operation \<Rightarrow> (error + report) option" where
  "outcome_in np [] d op = None"
| "outcome_in np (x # xs) d op =
     (if x = op then Some (fst (run_op np x d)) else outcome_in np xs (snd (run_op np x d)) op)"

text \<open>The consistency of the outcome columns of a table.\<close>

definition outcome_consistent :: "frame \<Rightarrow> bool" where
  "outcome_consistent d = list_all (\<lambda>p. sack p = 1 \<longrightarrow> completion p = 0 \<and> yards_gained p < 0) (rows d)"

section \<open>A small deterministic library\<close>

text \<open>
  A library to run the model on: the state of its generator counts the calls made so far,
  and every sampler computes its numbers from that count and the row; its arithmetic is
  exact, its rounding is \<open>decimal_round\<close>, and it can write the figure.
\<close>

definition demo_gam :: "nat \<Rightarrow> nat \<Rightarrow> rat" where
  "demo_gam g i =
     (if g = 0 then (if i = 0 then 3 else if i = 1 then 13 / 5 else if i = 2 then 3 / 2 else 12)
      else if g = 2 then (if i = 0 then 499 / 250 else if i = 2 then 11 else 3)
      else of_nat (i + 1))"

definition demo_frac :: "nat \<Rightarrow> nat \<Rightarrow> rat" where
  "demo_frac g i = (if g = 16 then 124 / 125 else if g = 11 \<and> i = 3 then 9 / 10 else 1 / 4)"

definition demo_np :: "nat np_random" where
  "demo_np =
     \<lparr>np_seed = (\<lambda>s. 0),
      np_gamma = (\<lambda>a b n g. (map (demo_gam g) [0..<n], g + 1)),
      np_choice = (\<lambda>p n g. (map (\<lambda>i. (i + g) mod length p) [0..<n], g + 1)),
      np_uniform = (\<lambda>lo hi n g. (map (\<lambda>i. lo + (hi - lo) * demo_frac g i) [0..<n], g + 1)),
      np_normal = (\<lambda>mu sd n g. (map (\<lambda>i. mu + sd * (demo_frac g i - 1 / 2)) [0..<n], g + 1)),
      np_binomial = (\<lambda>k ps g. (map (\<lambda>i. if 0 < k \<and> demo_frac g i < ps ! i then 1 else 0) [0..<length ps], g + 1)),
      np_binomial1 = (\<lambda>k p g. (if 0 < k \<and> demo_frac g 0 < p then 1 else 0, g + 1)),
      np_around = decimal_round,
      np_mean = (\<lambda>xs. sum_list xs / of_nat (length xs)),
      np_add = (\<lambda>x y. x + y),
      np_sub = (\<lambda>x y. x - y),
      savefig_ok = True\<rparr>"

text \<open>The table that the small generator produces for four plays.\<close>

definition demo_frame :: frame where
  "demo_frame =
     (case fst (create_realistic_nfl_data demo_np 4 0) of
        Inr d \<Rightarrow> d
      | Inl e \<Rightarrow> \<lparr>rows = [], time_bucket = None\<rparr>)"

text \<open>The table that it produces for a single play.\<close>

definition demo_single :: frame where
  "demo_single =
     (case fst (create_realistic_nfl_data demo_np 1 0) of
        Inr d \<Rightarrow> d
      | Inl e \<Rightarrow> \<lparr>rows = [], time_bucket = None\<rparr>)"

section \<open>Facts about the helpers\<close>

lemma round_half_even_mono:
  assumes "x \<le> y"
  shows "round_half_even x \<le> round_half_even y"
proof -
  have lo: "\<lfloor>z\<rfloor> \<le> round_half_even z" and hi: "round_half_even z \<le> \<lfloor>z\<rfloor> + 1" for z
    by (simp_all add: round_half_even_def Let_def)
  have f: "\<lfloor>x\<rfloor> \<le> \<lfloor>y\<rfloor>" using assms by (rule floor_mono)
  show ?thesis
  proof (cases "\<lfloor>x\<rfloor> < \<lfloor>y\<rfloor>")
    case True
    then show ?thesis using hi [of x] lo [of y] by linarith
  next
    case False
    then have e: "\<lfloor>x\<rfloor> = \<lfloor>y\<rfloor>" using f by simp
    have "x - of_int \<lfloor>y\<rfloor> \<le> y - of_int \<lfloor>y\<rfloor>" using assms by simp
    then show ?thesis unfolding round_half_even_def Let_def e by auto
  qed
qed

lemma decimal_round_mono: "x \<le> y \<Longrightarrow> decimal_round k x \<le> decimal_round k y"
proof -
  assume "x \<le> y"
  then have "x * 10 ^ k \<le> y * 10 ^ k" by simp
  then have "round_half_even (x * 10 ^ k) \<le> round_half_even (y * 10 ^ k)"
    by (rule round_half_even_mono)
  then have "(of_int (round_half_even (x * 10 ^ k)) :: rat) \<le> of_int (round_half_even (y * 10 ^ k))"
    by (simp only: of_int_le_iff)
  then show ?thesis by (simp add: decimal_round_def divide_right_mono)
qed

lemma decimal_round_int: "decimal_round k (of_int m) = of_int m"
proof -
  have "of_int m * (10::rat) ^ k = of_int (m * 10 ^ k)" by simp
  then have "round_half_even (of_int m * 10 ^ k) = m * 10 ^ k"
    by (simp only: round_half_even_def Let_def floor_of_int) simp
  then show ?thesis by (simp add: decimal_round_def)
qed

lemma assign_masked_Cons:
  "assign_masked (m # ms) (y # ys) vs =
     (if m then (case vs of [] \<Rightarrow> y # assign_masked ms ys [] | v # vs' \<Rightarrow> v # assign_masked ms ys vs')
      else y # assign_masked ms ys vs)"
  by simp

lemma assign_masked_Nil: "assign_masked [] ys vs = ys"
  by simp

lemma assign_masked_Nil2: "assign_masked ms [] vs = []"
  by (cases ms) simp_all

lemma assign_masked_length: "length (assign_masked ms ys vs) = length ys"
proof (induction ms arbitrary: ys vs)
  case Nil
  show ?case by simp
next
  case (Cons m ms)
  show ?case
  proof (cases ys)
    case Nil
    then show ?thesis by simp
  next
    case (Cons y ys')
    show ?thesis
    proof (cases vs)
      case Nil
      then show ?thesis using Cons Cons.IH by simp
    next
      case (Cons v vs')
      then show ?thesis using \<open>ys = y # ys'\<close> Cons.IH by simp
    qed
  qed
qed

lemma assign_masked_keep:
  "i < length ys \<Longrightarrow> i < length ms \<Longrightarrow> \<not> ms ! i \<Longrightarrow> assign_masked ms ys vs ! i = ys ! i"
proof (induction ms arbitrary: ys vs i)
  case Nil
  then show ?case by simp
next
  case (Cons m ms)
  obtain y ys' where ys: "ys = y # ys'" using Cons.prems(1) by (cases ys) auto
  show ?case
  proof (cases i)
    case 0
    then show ?thesis using Cons.prems ys by (cases vs) simp_all
  next
    case (Suc j)
    have j: "j < length ys'" "j < length ms" "\<not> ms ! j" using Cons.prems ys Suc by simp_all
    have "assign_masked ms ys' ws ! j = ys' ! j" for ws using Cons.IH j by blast
    then show ?thesis using ys Suc by (cases vs) simp_all
  qed
qed

lemma assign_masked_set:
  "i < length ys \<Longrightarrow> i < length ms \<Longrightarrow> ms ! i \<Longrightarrow> length (filter id ms) \<le> length vs
     \<Longrightarrow> assign_masked ms ys vs ! i \<in> set vs"
proof (induction ms arbitrary: ys vs i)
  case Nil
  then show ?case by simp
next
  case (Cons m ms)
  obtain y ys' where ys: "ys = y # ys'" using Cons.prems(1) by (cases ys) auto
  show ?case
  proof (cases i)
    case 0
    then have m using Cons.prems(3) by simp
    then obtain v vs' where vs: "vs = v # vs'" using Cons.prems(4) by (cases vs) simp_all
    show ?thesis using 0 \<open>m\<close> ys vs by simp
  next
    case (Suc j)
    have j: "j < length ys'" "j < length ms" "ms ! j" using Cons.prems ys Suc by simp_all
    show ?thesis
    proof (cases m)
      case True
      then obtain v vs' where vs: "vs = v # vs'" using Cons.prems(4) by (cases vs) simp_all
      have "length (filter id ms) \<le> length vs'" using Cons.prems(4) True vs by (simp add: id_def)
      then have "assign_masked ms ys' vs' ! j \<in> set vs'" using Cons.IH j by blast
      then show ?thesis using ys Suc True vs by simp
    next
      case False
      have "length (filter id ms) \<le> length vs" using Cons.prems(4) False by (simp add: id_def)
      then have "assign_masked ms ys' vs ! j \<in> set vs" using Cons.IH j by blast
      then show ?thesis using ys Suc False by simp
    qed
  qed
qed

lemma np_where_nth:
  "i < length c \<Longrightarrow> np_where c xs ys ! i = (if c ! i then xs ! i else ys ! i)"
  by (simp add: np_where_def)

lemma np_where_length: "length (np_where c xs ys) = length c"
  by (simp add: np_where_def)

lemma assign_scalar_nth:
  "i < length ys \<Longrightarrow> assign_scalar sel ys v ! i = (if sel ! i then v else ys ! i)"
  by (simp add: assign_scalar_def)

lemma demo_gam_nonneg: "0 \<le> demo_gam g i"
  by (simp add: demo_gam_def)

lemma demo_frac_range: "0 \<le> demo_frac g i \<and> demo_frac g i < 1"
  by (simp add: demo_frac_def)

lemma demo_uniform_range:
  assumes "lo < (hi::rat)"
  shows "lo \<le> lo + (hi - lo) * demo_frac g i \<and> lo + (hi - lo) * demo_frac g i < hi"
proof -
  have f: "0 \<le> demo_frac g i" "demo_frac g i < 1" using demo_frac_range by auto
  have "0 \<le> (hi - lo) * demo_frac g i" using assms f by simp
  moreover have "(hi - lo) * demo_frac g i < (hi - lo) * 1"
    using assms f by (intro mult_strict_left_mono) auto
  ultimately show ?thesis by simp
qed

lemma demo_uniform_lo: "lo < (hi::rat) \<Longrightarrow> 0 \<le> (hi - lo) * demo_frac g i"
  using demo_uniform_range [of lo hi g i] by simp

lemma demo_uniform_hi: "lo < (hi::rat) \<Longrightarrow> lo + (hi - lo) * demo_frac g i < hi"
  using demo_uniform_range [of lo hi g i] by simp

section \<open>Facts about the generator\<close>

lemma np_ok_gamma_len: "np_ok np \<Longrightarrow> length (fst (np_gamma np a b n g)) = n"
  by (simp add: np_ok_def)

lemma np_ok_gamma_nonneg: "np_ok np \<Longrightarrow> x \<in> set (fst (np_gamma np a b n g)) \<Longrightarrow> 0 \<le> x"
  by (simp add: np_ok_def)

lemma np_ok_choice_len: "np_ok np \<Longrightarrow> length (fst (np_choice np p n g)) = n"
  by (simp add: np_ok_def)

lemma np_ok_choice_range:
  "np_ok np \<Longrightarrow> p \<noteq> [] \<Longrightarrow> i \<in> set (fst (np_choice np p n g)) \<Longrightarrow> i < length p"
  by (simp add: np_ok_def)

lemma np_ok_uniform_len: "np_ok np \<Longrightarrow> length (fst (np_uniform np lo hi n g)) = n"
  by (simp add: np_ok_def)

lemma np_ok_uniform_range:
  "np_ok np \<Longrightarrow> lo < hi \<Longrightarrow> x \<in> set (fst (np_uniform np lo hi n g)) \<Longrightarrow> lo \<le> x \<and> x < hi"
  by (simp add: np_ok_def)

lemma np_ok_normal_len: "np_ok np \<Longrightarrow> length (fst (np_normal np mu sd n g)) = n"
  by (simp add: np_ok_def)

lemma np_ok_binomial_len: "np_ok np \<Longrightarrow> length (fst (np_binomial np k ps g)) = length ps"
  by (simp add: np_ok_def)

lemma np_ok_binomial_range:
  "np_ok np \<Longrightarrow> x \<in> set (fst (np_binomial np k ps g)) \<Longrightarrow> 0 \<le> x \<and> x \<le> int k"
  by (simp add: np_ok_def)

lemma np_ok_binomial1_range:
  "np_ok np \<Longrightarrow> 0 \<le> fst (np_binomial1 np k p g) \<and> fst (np_binomial1 np k p g) \<le> int k"
  by (simp add: np_ok_def)

lemma np_ok_around_mono: "np_ok np \<Longrightarrow> x \<le> y \<Longrightarrow> np_around np k x \<le> np_around np k y"
  by (simp add: np_ok_def)

lemma np_ok_around_int:
  "np_ok np \<Longrightarrow> k \<le> 3 \<Longrightarrow> \<bar>m\<bar> \<le> 10 \<Longrightarrow> np_around np k (of_int m) = of_int m"
  by (simp add: np_ok_def)

lemma around_zero: "np_ok np \<Longrightarrow> k \<le> 3 \<Longrightarrow> np_around np k 0 = 0"
  using np_ok_around_int [of np k 0] by simp

lemma around_sack_bounds:
  assumes "np_ok np" "3 \<le> u" "u < (8::rat)"
  shows "- 8 \<le> np_around np 1 (- u)" and "np_around np 1 (- u) \<le> - 3"
proof -
  have "np_around np 1 (of_int (- 8)) \<le> np_around np 1 (- u)"
    using assms by (intro np_ok_around_mono) simp_all
  moreover have "np_around np 1 (of_int (- 8)) = of_int (- 8)"
    using assms(1) by (intro np_ok_around_int) simp_all
  ultimately show "- 8 \<le> np_around np 1 (- u)" by simp
  have "np_around np 1 (- u) \<le> np_around np 1 (of_int (- 3))"
    using assms by (intro np_ok_around_mono) simp_all
  moreover have "np_around np 1 (of_int (- 3)) = of_int (- 3)"
    using assms(1) by (intro np_ok_around_int) simp_all
  ultimately show "np_around np 1 (- u) \<le> - 3" by simp
qed

lemmas np_ok_len = np_ok_gamma_len np_ok_choice_len np_ok_uniform_len np_ok_normal_len
  np_ok_binomial_len

lemma gen_inputs_len:
  assumes "np_ok np"
  shows "length (in_time_to_throw (gen_inputs np n g)) = n"
    and "length (in_pressure_applied (gen_inputs np n g)) = n"
    and "length (in_time_to_pressure (gen_inputs np n g)) = n"
    and "length (in_down (gen_inputs np n g)) = n"
    and "length (in_distance (gen_inputs np n g)) = n"
    and "length (in_field_position (gen_inputs np n g)) = n"
    and "length (in_score_diff (gen_inputs np n g)) = n"
    and "length (in_quarter (gen_inputs np n g)) = n"
    and "length (in_def_alignment (gen_inputs np n g)) = n"
    and "length (in_rushers (gen_inputs np n g)) = n"
  using assms
  by (simp_all add: gen_inputs_def sample_inputs_def choice_def split_def Let_def np_ok_len)

lemma col_inputs_eq: "col_inputs (fst (generate_columns np n g)) = gen_inputs np n g"
  by (simp add: generate_columns_def split_def Let_def gen_inputs_def)

lemma col_drawn_eq: "col_completion_drawn (fst (generate_columns np n g)) = drawn_completion np n g"
  by (simp add: generate_columns_def split_def Let_def gen_inputs_def drawn_completion_def
      draw_completion_def drawn_pressure_completion_def drawn_clean_completion_def
      rng_at_completion_def)

lemma snd_draw_yards:
  "snd (draw_yards np n ins cpl g) =
     snd (np_uniform np 0 3 n (snd (np_gamma np 1 2 n (snd (np_gamma np 2 3 n g)))))"
  by (simp add: draw_yards_def split_def Let_def)

lemma col_sack_eq: "col_sack (fst (generate_columns np n g)) = sack_column np n g"
  by (simp add: generate_columns_def split_def Let_def gen_inputs_def sack_column_def
      draw_sack_def drawn_sack_def rng_at_sack_def rng_at_yards_def rng_at_completion_def
      snd_draw_yards)

lemmas gen_names = gen_inputs_def rng_at_completion_def drawn_pressure_completion_def
  drawn_clean_completion_def rng_at_yards_def drawn_base_yards_def drawn_bonus_yards_def
  drawn_penalty_def rng_at_sack_def drawn_sack_def drawn_completion_def completed_yards_def
  sack_column_def drawn_sack_yards_def

lemmas gen_stages = generate_columns_def draw_completion_def draw_yards_def draw_sack_def
  adjust_for_sacks_def draw_interception_def

lemma col_completion_eq:
  "col_completion (fst (generate_columns np n g)) =
     assign_scalar (map (\<lambda>s. s = 1) (sack_column np n g)) (drawn_completion np n g) 0"
  by (simp add: gen_stages gen_names split_def Let_def)

lemma completed_yards_fun:
  "completed_yards np n g =
     (\<lambda>i. np_sub np
       (np_add np (drawn_base_yards np n g ! i)
          (as_num (in_time_to_throw (gen_inputs np n g) ! i > 5 / 2) * drawn_bonus_yards np n g ! i))
       (as_num (in_pressure_applied (gen_inputs np n g) ! i = 1) * drawn_penalty np n g ! i))"
  by (rule ext) (simp add: completed_yards_def)

lemma col_yards_eq:
  "col_yards (fst (generate_columns np n g)) =
     assign_masked (map (\<lambda>s. s = 1) (sack_column np n g))
       (np_where (map (\<lambda>c. c = 1) (drawn_completion np n g))
          (map (completed_yards np n g) [0..<n])
          (replicate (length (drawn_completion np n g)) 0))
       (map uminus (drawn_sack_yards np n g))"
  unfolding completed_yards_fun
  by (simp only: gen_stages gen_names split_def Let_def fst_conv snd_conv columns.select_convs)

lemma drawn_lengths:
  assumes "np_ok np"
  shows "length (drawn_pressure_completion np n g) = n"
    and "length (drawn_clean_completion np n g) = n"
    and "length (drawn_completion np n g) = n"
    and "length (drawn_base_yards np n g) = n"
    and "length (drawn_bonus_yards np n g) = n"
    and "length (drawn_penalty np n g) = n"
    and "length (sack_column np n g) = n"
    and "length (drawn_sack_yards np n g) = length (filter id (map (\<lambda>s. s = 1) (sack_column np n g)))"
  using assms gen_inputs_len [OF assms, of n g]
  by (simp_all add: drawn_pressure_completion_def drawn_clean_completion_def
      drawn_completion_def drawn_base_yards_def drawn_bonus_yards_def drawn_penalty_def
      sack_column_def drawn_sack_yards_def np_ok_len np_where_length del: length_filter_map)

lemma sack_column_nth:
  "i < n \<Longrightarrow> sack_column np n g ! i = (if sack_possible (gen_inputs np n g) i then drawn_sack np n g else 0)"
  by (simp add: sack_column_def np_where_nth)

lemma drawn_completion_nth:
  assumes "np_ok np" "i < n"
  shows "drawn_completion np n g ! i =
           (if in_pressure_applied (gen_inputs np n g) ! i = 1
            then drawn_pressure_completion np n g ! i else drawn_clean_completion np n g ! i)"
  using assms gen_inputs_len(2) [OF assms(1), of n g]
  by (simp add: drawn_completion_def np_where_nth)

lemma col_completion_nth:
  assumes "np_ok np" "i < n"
  shows "col_completion (fst (generate_columns np n g)) ! i =
           (if sack_column np n g ! i = 1 then 0 else drawn_completion np n g ! i)"
  using assms drawn_lengths(3,7) [OF assms(1), of n g]
  by (simp add: col_completion_eq assign_scalar_nth)

lemma col_yards_nth_nosack:
  assumes "np_ok np" "i < n" "sack_column np n g ! i \<noteq> 1"
  shows "col_yards (fst (generate_columns np n g)) ! i =
           (if drawn_completion np n g ! i = 1 then completed_yards np n g i else 0)"
proof -
  let ?ys = "np_where (map (\<lambda>c. c = 1) (drawn_completion np n g))
          (map (completed_yards np n g) [0..<n])
          (replicate (length (drawn_completion np n g)) 0)"
  have len: "length ?ys = n" using drawn_lengths(3) [OF assms(1)] by (simp add: np_where_length)
  have "col_yards (fst (generate_columns np n g)) ! i = ?ys ! i"
    unfolding col_yards_eq
    using assms len drawn_lengths(7) [OF assms(1), of n g]
    by (intro assign_masked_keep) simp_all
  also have "\<dots> = (if drawn_completion np n g ! i = 1 then completed_yards np n g i else 0)"
    using assms drawn_lengths(3) [OF assms(1), of n g] by (simp add: np_where_nth)
  finally show ?thesis .
qed

lemma col_yards_nth_sack:
  assumes "np_ok np" "i < n" "sack_column np n g ! i = 1"
  shows "\<exists>u \<in> set (drawn_sack_yards np n g). 3 \<le> u \<and> u < 8
           \<and> col_yards (fst (generate_columns np n g)) ! i = - u"
proof -
  let ?ys = "np_where (map (\<lambda>c. c = 1) (drawn_completion np n g))
          (map (completed_yards np n g) [0..<n])
          (replicate (length (drawn_completion np n g)) 0)"
  have len: "length ?ys = n" using drawn_lengths(3) [OF assms(1)] by (simp add: np_where_length)
  have "col_yards (fst (generate_columns np n g)) ! i \<in> set (map uminus (drawn_sack_yards np n g))"
    unfolding col_yards_eq
    using assms len drawn_lengths(7,8) [OF assms(1), of n g]
    by (intro assign_masked_set) simp_all
  then obtain u where u: "u \<in> set (drawn_sack_yards np n g)"
    "col_yards (fst (generate_columns np n g)) ! i = - u" by auto
  have "3 \<le> u \<and> u < 8"
    using u(1) np_ok_uniform_range [OF assms(1), of 3 8 u] unfolding drawn_sack_yards_def by simp
  then show ?thesis using u by blast
qed

lemma create_rows:
  assumes "create_realistic_nfl_data np n g = (Inr d, g')"
  shows "0 \<le> n" and "rows d = map (make_play np (fst (generate_columns np (nat n) g))) [0..<nat n]"
    and "time_bucket d = None"
  using assms
  by (auto simp: create_realistic_nfl_data_def split_def Let_def split: if_splits)

lemma create_total:
  "0 \<le> n \<Longrightarrow> \<exists>d. fst (create_realistic_nfl_data np n g) = Inr d"
  by (simp add: create_realistic_nfl_data_def split_def Let_def)

lemma make_play_simps:
  "play_id (make_play np c i) = int i + 1"
  "time_to_throw (make_play np c i) = np_around np 2 (in_time_to_throw (col_inputs c) ! i)"
  "pressure_applied (make_play np c i) = in_pressure_applied (col_inputs c) ! i"
  "time_to_pressure (make_play np c i) = np_around np 2 (in_time_to_pressure (col_inputs c) ! i)"
  "completion (make_play np c i) = col_completion c ! i"
  "yards_gained (make_play np c i) = np_around np 1 (col_yards c ! i)"
  "sack (make_play np c i) = col_sack c ! i"
  by (simp_all add: make_play_def)

lemma create_row:
  assumes "create_realistic_nfl_data np n g = (Inr d, g')" "i < length (rows d)"
  shows "i < nat n" and "rows d ! i = make_play np (fst (generate_columns np (nat n) g)) i"
  using assms create_rows(2) [OF assms(1)] by simp_all

lemma completion_prob_values:
  "pressure_completion_prob t = (if t < 2 then 2 / 5 else 1 / 2)"
  "clean_completion_prob t = (if t > 5 / 2 then 7 / 10 else 13 / 20)"
  by (simp_all add: pressure_completion_prob_def clean_completion_prob_def base_completion_def
      np_clip_def as_num_def)

lemma bit_cases: "0 \<le> (x::int) \<Longrightarrow> x \<le> 1 \<Longrightarrow> x = 0 \<or> x = 1"
  by arith

lemma drawn_sack_bit: "np_ok np \<Longrightarrow> drawn_sack np n g = 0 \<or> drawn_sack np n g = 1"
  using np_ok_binomial1_range [of np 1 "2 / 5" "rng_at_sack np n g"]
  by (simp add: drawn_sack_def bit_cases)

text \<open>
  Claim C1, as amended. For every generated play that is not a sack, \<open>completion\<close> is the
  Bernoulli draw whose parameter depends only on pressure and on the sampled release time
  \<open>t\<close> (the stored \<open>time_to_throw\<close> is what \<open>round(2)\<close> makes of \<open>t\<close>): with pressure it
  is \<open>0.65 - 0.15\<close>, less \<open>0.10\<close> when \<open>t < 2.0\<close>; without pressure it is \<open>0.65\<close>, plus
  \<open>0.05\<close> when \<open>t > 2.5\<close>; clipping to \<open>[0.3, 0.9]\<close> changes neither. A play with
  \<open>sack = 1\<close> has \<open>completion = 0\<close> whatever was drawn (line 122).
\<close>

theorem completion_rule:
  assumes "np_ok np" "create_realistic_nfl_data np n g = (Inr d, g')" "i < length (rows d)"
  shows "let r = rows d ! i; k = nat n; t = in_time_to_throw (gen_inputs np k g) ! i in
     time_to_throw r = np_around np 2 t
     \<and> drawn_pressure_completion np k g =
         fst (np_binomial np 1 (map pressure_completion_prob (in_time_to_throw (gen_inputs np k g)))
                (rng_at_completion np k g))
     \<and> drawn_clean_completion np k g =
         fst (np_binomial np 1 (map clean_completion_prob (in_time_to_throw (gen_inputs np k g)))
                (snd (np_binomial np 1
                        (map pressure_completion_prob (in_time_to_throw (gen_inputs np k g)))
                        (rng_at_completion np k g))))
     \<and> pressure_completion_prob t = (if t < 2 then 2 / 5 else 1 / 2)
     \<and> clean_completion_prob t = (if t > 5 / 2 then 7 / 10 else 13 / 20)
     \<and> (sack r \<noteq> 1 \<longrightarrow>
          completion r = (if pressure_applied r = 1 then drawn_pressure_completion np k g ! i
                          else drawn_clean_completion np k g ! i))
     \<and> (sack r = 1 \<longrightarrow> completion r = 0)"
proof -
  note row = create_row [OF assms(2,3)]
  have c: "col_completion (fst (generate_columns np (nat n) g)) ! i =
           (if sack_column np (nat n) g ! i = 1 then 0 else drawn_completion np (nat n) g ! i)"
    using col_completion_nth [OF assms(1) row(1)] .
  have dc: "drawn_completion np (nat n) g ! i =
           (if in_pressure_applied (gen_inputs np (nat n) g) ! i = 1
            then drawn_pressure_completion np (nat n) g ! i else drawn_clean_completion np (nat n) g ! i)"
    using drawn_completion_nth [OF assms(1) row(1)] .
  show ?thesis
    unfolding Let_def row(2) make_play_simps col_inputs_eq col_sack_eq c dc
    by (simp add: drawn_pressure_completion_def drawn_clean_completion_def completion_prob_values)
qed


lemma drawn_completion_bit:
  assumes "np_ok np" "i < n"
  shows "drawn_completion np n g ! i = 0 \<or> drawn_completion np n g ! i = 1"
proof -
  have p: "drawn_pressure_completion np n g ! i \<in> set (drawn_pressure_completion np n g)"
    and c: "drawn_clean_completion np n g ! i \<in> set (drawn_clean_completion np n g)"
    using assms drawn_lengths(1,2) [OF assms(1), of n g] by simp_all
  have "0 \<le> drawn_pressure_completion np n g ! i \<and> drawn_pressure_completion np n g ! i \<le> 1"
    using np_ok_binomial_range [OF assms(1) p [unfolded drawn_pressure_completion_def]]
    by (simp add: drawn_pressure_completion_def)
  moreover have "0 \<le> drawn_clean_completion np n g ! i \<and> drawn_clean_completion np n g ! i \<le> 1"
    using np_ok_binomial_range [OF assms(1) c [unfolded drawn_clean_completion_def]]
    by (simp add: drawn_clean_completion_def)
  ultimately show ?thesis
    unfolding drawn_completion_nth [OF assms] by (simp add: bit_cases)
qed

lemma sack_column_bit:
  assumes "np_ok np" "i < n"
  shows "sack_column np n g ! i = 0 \<or> sack_column np n g ! i = 1"
  using drawn_sack_bit [OF assms(1), of n g] sack_column_nth [OF assms(2), of np g] by auto

lemma drawn_yards_ranges:
  assumes "np_ok np" "i < n"
  shows "0 \<le> drawn_base_yards np n g ! i" and "0 \<le> drawn_bonus_yards np n g ! i"
    and "0 \<le> drawn_penalty np n g ! i" and "drawn_penalty np n g ! i < 3"
proof -
  have b: "drawn_base_yards np n g ! i \<in> set (drawn_base_yards np n g)"
    and e: "drawn_bonus_yards np n g ! i \<in> set (drawn_bonus_yards np n g)"
    and p: "drawn_penalty np n g ! i \<in> set (drawn_penalty np n g)"
    using assms drawn_lengths(4,5,6) [OF assms(1), of n g] by simp_all
  show "0 \<le> drawn_base_yards np n g ! i"
    using np_ok_gamma_nonneg [OF assms(1) b [unfolded drawn_base_yards_def]]
    by (simp add: drawn_base_yards_def)
  show "0 \<le> drawn_bonus_yards np n g ! i"
    using np_ok_gamma_nonneg [OF assms(1) e [unfolded drawn_bonus_yards_def]]
    by (simp add: drawn_bonus_yards_def)
  have "0 \<le> drawn_penalty np n g ! i \<and> drawn_penalty np n g ! i < 3"
    using np_ok_uniform_range [OF assms(1) _ p [unfolded drawn_penalty_def]]
    by (simp add: drawn_penalty_def)
  then show "0 \<le> drawn_penalty np n g ! i" and "drawn_penalty np n g ! i < 3" by simp_all
qed

text \<open>
  Claim C3, as amended. For every generated play: with \<open>completion = 0\<close> and \<open>sack = 0\<close>,
  \<open>yards_gained = 0\<close>; with \<open>completion = 1\<close>, \<open>yards_gained\<close> is what \<open>round(1)\<close> makes of
  a non-negative base draw, plus a non-negative bonus draw when the sampled \<open>time_to_throw\<close>
  is above \<open>2.5\<close>, minus a penalty drawn from \<open>[0, 3)\<close> when \<open>pressure_applied = 1\<close>, the
  sum and the difference being those of doubles; with \<open>sack = 1\<close>, \<open>yards_gained\<close> is what
  \<open>round(1)\<close> makes of a draw from \<open>(-8, -3]\<close>, so it lies in \<open>[-8, -3]\<close>.
\<close>

theorem yards_rule:
  assumes "np_ok np" "create_realistic_nfl_data np n g = (Inr d, g')" "i < length (rows d)"
  shows "let r = rows d ! i; k = nat n; ins = gen_inputs np k g in
     (completion r = 0 \<and> sack r = 0 \<longrightarrow> yards_gained r = 0)
     \<and> (completion r = 1 \<longrightarrow>
          yards_gained r =
            np_around np 1
              (np_sub np
                 (np_add np (drawn_base_yards np k g ! i)
                    (if in_time_to_throw ins ! i > 5 / 2 then drawn_bonus_yards np k g ! i else 0))
                 (if pressure_applied r = 1 then drawn_penalty np k g ! i else 0))
          \<and> 0 \<le> drawn_base_yards np k g ! i \<and> 0 \<le> drawn_bonus_yards np k g ! i
          \<and> 0 \<le> drawn_penalty np k g ! i \<and> drawn_penalty np k g ! i < 3)
     \<and> (sack r = 1 \<longrightarrow>
          (\<exists>u \<in> set (drawn_sack_yards np k g). 3 \<le> u \<and> u < 8 \<and> yards_gained r = np_around np 1 (- u))
          \<and> - 8 \<le> yards_gained r \<and> yards_gained r \<le> - 3)"
proof -
  note row = create_row [OF assms(2,3)]
  let ?k = "nat n"
  let ?c = "fst (generate_columns np ?k g)"
  have comp: "col_completion ?c ! i =
      (if sack_column np ?k g ! i = 1 then 0 else drawn_completion np ?k g ! i)"
    using col_completion_nth [OF assms(1) row(1)] .
  have z: "np_around np (Suc 0) 0 = 0" using around_zero [OF assms(1), of "Suc 0"] by simp
  have a: "col_completion ?c ! i = 0 \<and> sack_column np ?k g ! i = 0 \<longrightarrow> np_around np 1 (col_yards ?c ! i) = 0"
    using comp col_yards_nth_nosack [OF assms(1) row(1), of g] by (auto simp: z)
  have b: "col_completion ?c ! i = 1 \<longrightarrow>
      col_yards ?c ! i = completed_yards np ?k g i"
    using comp col_yards_nth_nosack [OF assms(1) row(1), of g] by (auto split: if_splits)
  have c: "sack_column np ?k g ! i = 1 \<longrightarrow>
      (\<exists>u \<in> set (drawn_sack_yards np ?k g). 3 \<le> u \<and> u < 8 \<and> np_around np 1 (col_yards ?c ! i) = np_around np 1 (- u))
      \<and> - 8 \<le> np_around np 1 (col_yards ?c ! i) \<and> np_around np 1 (col_yards ?c ! i) \<le> - 3"
  proof
    assume s: "sack_column np ?k g ! i = 1"
    obtain u where u: "u \<in> set (drawn_sack_yards np ?k g)" "3 \<le> u" "u < 8" "col_yards ?c ! i = - u"
      using col_yards_nth_sack [OF assms(1) row(1) s] by blast
    show "(\<exists>u \<in> set (drawn_sack_yards np ?k g). 3 \<le> u \<and> u < 8 \<and> np_around np 1 (col_yards ?c ! i) = np_around np 1 (- u))
      \<and> - 8 \<le> np_around np 1 (col_yards ?c ! i) \<and> np_around np 1 (col_yards ?c ! i) \<le> - 3"
      using u around_sack_bounds [OF assms(1) u(2,3)] by auto
  qed
  show ?thesis
    unfolding Let_def row(2) make_play_simps col_inputs_eq col_sack_eq
    using a b c drawn_yards_ranges [OF assms(1) row(1), of g]
    by (simp add: completed_yards_def as_num_def)
qed

lemma play_ids_upto: "map (\<lambda>i. int i + 1) [0..<k] = [1..int k]"
proof (induction k)
  case 0
  show ?case by simp
next
  case (Suc k)
  have "[1..int (Suc k)] = [1..int k] @ [int k + 1]"
    using upto_rec2 [of 1 "int k + 1"] by (simp add: add.commute)
  then show ?case using Suc by simp
qed

lemma col_interception_len: "length (col_interception (fst (generate_columns np n g))) = n"
  by (simp add: gen_stages split_def Let_def np_where_length)

lemma column_lengths_generated:
  assumes "np_ok np"
  shows "column_lengths (fst (generate_columns np n g)) = replicate 14 n"
proof -
  have "length (col_completion (fst (generate_columns np n g))) = n"
    using drawn_lengths(3) [OF assms, of n g] by (simp add: col_completion_eq assign_scalar_def)
  moreover have "length (col_yards (fst (generate_columns np n g))) = n"
    using drawn_lengths(3) [OF assms, of n g]
    by (simp add: col_yards_eq assign_masked_length np_where_length)
  moreover have "length (col_sack (fst (generate_columns np n g))) = n"
    using drawn_lengths(7) [OF assms, of n g] by (simp add: col_sack_eq)
  ultimately show ?thesis
    using gen_inputs_len [OF assms, of n g]
    by (simp add: column_lengths_def col_inputs_eq col_interception_len numeral_eq_Suc)
qed

lemma table_shape_general:
  assumes "np_ok np" "0 \<le> n"
  shows "\<exists>d. fst (create_realistic_nfl_data np n g) = Inr d
           \<and> length (rows d) = nat n
           \<and> map play_id (rows d) = [1..n]
           \<and> distinct (map play_id (rows d))
           \<and> rows d = map (make_play np (fst (generate_columns np (nat n) g))) [0..<nat n]
           \<and> column_lengths (fst (generate_columns np (nat n) g)) = replicate 14 (nat n)
           \<and> time_bucket d = None"
proof -
  obtain d where d: "fst (create_realistic_nfl_data np n g) = Inr d"
    using create_total [OF assms(2), of np g] by blast
  then have eq: "create_realistic_nfl_data np n g = (Inr d, snd (create_realistic_nfl_data np n g))"
    by (metis prod.collapse)
  note r = create_rows [OF eq]
  have ids: "map play_id (rows d) = [1..n]"
    using play_ids_upto [of "nat n"] assms(2) by (simp add: r(2) make_play_def comp_def)
  show ?thesis
    using d r ids column_lengths_generated [OF assms(1)] by simp
qed

text \<open>
  Claim C8. \<open>create_realistic_nfl_data(n_plays)\<close> returns one table of exactly
  \<open>n_plays\<close> records, whose \<open>play_id\<close> column is \<open>1, 2, ..., n_plays\<close>, each value once;
  every record is built from the fourteen other columns, each of which has \<open>n_plays\<close>
  entries; the constructor, which passes no size, gets 2500 records.
\<close>

theorem create_table_shape:
  assumes "np_ok np" "0 \<le> n"
  shows "(\<exists>d. fst (create_realistic_nfl_data np n g) = Inr d
           \<and> length (rows d) = nat n
           \<and> map play_id (rows d) = [1..n]
           \<and> distinct (map play_id (rows d))
           \<and> rows d = map (make_play np (fst (generate_columns np (nat n) g))) [0..<nat n]
           \<and> column_lengths (fst (generate_columns np (nat n) g)) = replicate 14 (nat n)
           \<and> time_bucket d = None)
         \<and> (\<exists>d. fst (nfl_init np g) = Inr d \<and> length (rows d) = 2500
               \<and> map play_id (rows d) = [1..2500])"
proof -
  have "\<exists>d. fst (nfl_init np g) = Inr d \<and> length (rows d) = 2500
               \<and> map play_id (rows d) = [1..2500]"
    using table_shape_general [OF assms(1), of default_n_plays "np_seed np 42"]
    by (auto simp: nfl_init_def default_n_plays_def)
  then show ?thesis using table_shape_general [OF assms, of g] by blast
qed

lemma snd_pressure_impact_summary: "snd (pressure_impact_summary np d) = d"
  by (simp add: pressure_impact_summary_def Let_def)

lemma snd_defensive_alignment_effectiveness: "snd (defensive_alignment_effectiveness np d) = d"
  by (simp add: defensive_alignment_effectiveness_def Let_def)

lemma snd_optimal_pressure_timing: "snd (optimal_pressure_timing np d) = d"
  by (simp add: optimal_pressure_timing_def Let_def)

lemma snd_create_visualizations: "snd (create_visualizations np d) = d"
  unfolding create_visualizations_def
  by (cases "bar2 (pressure_means np (\<lambda>p. of_int (completion p)) d)";
      cases "bar2 (pressure_means np yards_gained d)"; cases "time_bucket d") simp_all

lemma snd_time_to_throw_analysis:
  "snd (time_to_throw_analysis np d) =
     d\<lparr>time_bucket := Some (map (\<lambda>p. pd_cut time_bins time_labels (time_to_throw p)) (rows d))\<rparr>"
  by (simp add: time_to_throw_analysis_def Let_def)

lemma snd_run_op:
  "snd (run_op np op d) =
     (if op = TTA
      then d\<lparr>time_bucket := Some (map (\<lambda>p. pd_cut time_bins time_labels (time_to_throw p)) (rows d))\<rparr>
      else d)"
  by (cases op)
     (simp_all add: tagged_def snd_pressure_impact_summary snd_defensive_alignment_effectiveness
       snd_optimal_pressure_timing snd_create_visualizations snd_time_to_throw_analysis)

lemma run_op_rows: "rows (snd (run_op np op d)) = rows d"
  by (simp add: snd_run_op)

lemma exec_ops_rows: "rows (exec_ops np ops d) = rows d"
  by (induction ops arbitrary: d) (simp_all add: run_op_rows)

lemma generated_consistent:
  assumes "np_ok np" "create_realistic_nfl_data np n g = (Inr d, g')"
  shows "outcome_consistent d"
proof -
  have "sack (rows d ! i) = 1 \<longrightarrow> completion (rows d ! i) = 0 \<and> yards_gained (rows d ! i) < 0"
    if i: "i < length (rows d)" for i
  proof
    assume s: "sack (rows d ! i) = 1"
    note row = create_row [OF assms(2) i]
    have s': "sack_column np (nat n) g ! i = 1"
      using s by (simp add: row(2) make_play_simps col_sack_eq)
    obtain u where u: "3 \<le> u" "u < 8" "col_yards (fst (generate_columns np (nat n) g)) ! i = - u"
      using col_yards_nth_sack [OF assms(1) row(1) s'] by blast
    have "np_around np 1 (- u) \<le> - 3" using around_sack_bounds(2) [OF assms(1) u(1,2)] .
    then show "completion (rows d ! i) = 0 \<and> yards_gained (rows d ! i) < 0"
      using s' u(3) col_completion_nth [OF assms(1) row(1), of g]
      by (simp add: row(2) make_play_simps)
  qed
  then show ?thesis
    by (auto simp: outcome_consistent_def list_all_iff in_set_conv_nth)
qed

text \<open>
  Claim C4. On every record of the generated table, \<open>sack = 1\<close> implies \<open>completion = 0\<close>
  and \<open>yards_gained < 0\<close>; this holds for the table \<open>create_realistic_nfl_data\<close> returns
  and still holds after any analysis operation and after any sequence of them.
\<close>

theorem outcome_consistency:
  assumes "np_ok np" "create_realistic_nfl_data np n g = (Inr d, g')"
  shows "outcome_consistent d \<and> outcome_consistent (snd (run_op np op d))
           \<and> outcome_consistent (exec_ops np ops d)"
  using generated_consistent [OF assms]
  by (simp add: outcome_consistent_def run_op_rows exec_ops_rows)

lemma demo_np_ok: "np_ok demo_np"
  unfolding np_ok_def demo_np_def
  apply (simp add: demo_gam_nonneg demo_uniform_lo demo_uniform_hi decimal_round_mono
      decimal_round_int)
  apply (intro allI ballI)
  by auto

lemma demo_frame_rows:
  "demo_frame =
    \<lparr>rows =
        [\<lparr>play_id = 1, time_to_throw = 3, pressure_applied = 1,
            time_to_pressure = 2, down = 4, distance = 1,
            field_position = 55 / 2, score_diff = - (5 / 2), quarter = 4,
            def_alignment = ''Dime'', rushers = 4, completion = 0,
            yards_gained = - 8, sack = 1, interception = 0\<rparr>,
         \<lparr>play_id = 2, time_to_throw = 13 / 5, pressure_applied = 0,
            time_to_pressure = 3, down = 1, distance = 2,
            field_position = 55 / 2, score_diff = - (5 / 2), quarter = 1,
            def_alignment = ''Blitz'', rushers = 5, completion = 1,
            yards_gained = 4, sack = 0, interception = 0\<rparr>,
         \<lparr>play_id = 3, time_to_throw = 3 / 2, pressure_applied = 1,
            time_to_pressure = 11, down = 2, distance = 3,
            field_position = 55 / 2, score_diff = - (5 / 2), quarter = 2,
            def_alignment = ''4-3 Base'', rushers = 6, completion = 1,
            yards_gained = 11 / 5, sack = 0, interception = 0\<rparr>,
         \<lparr>play_id = 4, time_to_throw = 12, pressure_applied = 0,
            time_to_pressure = 3, down = 3, distance = 4,
            field_position = 55 / 2, score_diff = - (5 / 2), quarter = 3,
            def_alignment = ''3-4 Base'', rushers = 3, completion = 0,
            yards_gained = 0, sack = 0, interception = 0\<rparr>],
        time_bucket = None\<rparr>"
  by code_simp

lemma demo_create: "create_realistic_nfl_data demo_np 4 0 = (Inr demo_frame, 19)"
  by code_simp

lemma demo_inputs:
  "in_time_to_throw (gen_inputs demo_np 4 0) = [3, 13 / 5, 3 / 2, 12]"
  "in_pressure_applied (gen_inputs demo_np 4 0) = [1, 0, 1, 0]"
  "in_time_to_pressure (gen_inputs demo_np 4 0) = [499 / 250, 3, 11, 3]"
  by code_simp+

lemma demo_drawn:
  "drawn_pressure_completion demo_np 4 0 = [1, 1, 1, 1]"
  "drawn_sack demo_np 4 0 = 1"
  by code_simp+

text \<open>The rule of claim C1 on the second play of the four-play table.\<close>

theorem completion_rule_witness:
  "np_ok demo_np \<and> create_realistic_nfl_data demo_np 4 0 = (Inr demo_frame, 19)
     \<and> 1 < length (rows demo_frame)
     \<and> completion (rows demo_frame ! 1) = drawn_clean_completion demo_np 4 0 ! 1"
proof -
  have h: "1 < length (rows demo_frame)" by (simp add: demo_frame_rows)
  have "sack (rows demo_frame ! 1) \<noteq> 1 \<longrightarrow>
        completion (rows demo_frame ! 1) =
          (if pressure_applied (rows demo_frame ! 1) = 1
           then drawn_pressure_completion demo_np (nat 4) 0 ! 1
           else drawn_clean_completion demo_np (nat 4) 0 ! 1)"
    using completion_rule [OF demo_np_ok demo_create h, unfolded Let_def] by blast
  moreover have "sack (rows demo_frame ! 1) = 0" "pressure_applied (rows demo_frame ! 1) = 0"
    by (simp_all add: demo_frame_rows)
  ultimately have "completion (rows demo_frame ! 1) = drawn_clean_completion demo_np 4 0 ! 1"
    by simp
  then show ?thesis using demo_np_ok demo_create h by simp
qed

text \<open>
  Claim C1 as stated fails: the first play of the four-play table is under pressure, its
  Bernoulli draw is 1, and its \<open>completion\<close> is 0, because the play is a sack.
\<close>

theorem completion_rule_counterexample:
  "create_realistic_nfl_data demo_np 4 0 = (Inr demo_frame, 19)
     \<and> pressure_applied (rows demo_frame ! 0) = 1
     \<and> drawn_pressure_completion demo_np 4 0 ! 0 = 1
     \<and> completion (rows demo_frame ! 0) = 0"
  by (simp add: demo_create demo_drawn demo_frame_rows)



text \<open>The rule of claim C3 on the second play of the four-play table.\<close>

theorem yards_rule_witness:
  "np_ok demo_np \<and> create_realistic_nfl_data demo_np 4 0 = (Inr demo_frame, 19)
     \<and> 1 < length (rows demo_frame)
     \<and> completion (rows demo_frame ! 1) = 1
     \<and> yards_gained (rows demo_frame ! 1) =
         np_around demo_np 1
           (np_sub demo_np
              (np_add demo_np (drawn_base_yards demo_np 4 0 ! 1) (drawn_bonus_yards demo_np 4 0 ! 1)) 0)"
proof -
  have h: "1 < length (rows demo_frame)" by (simp add: demo_frame_rows)
  have "completion (rows demo_frame ! 1) = 1 \<longrightarrow>
      yards_gained (rows demo_frame ! 1) =
        np_around demo_np 1
          (np_sub demo_np
             (np_add demo_np (drawn_base_yards demo_np (nat 4) 0 ! 1)
                (if in_time_to_throw (gen_inputs demo_np (nat 4) 0) ! 1 > 5 / 2
                 then drawn_bonus_yards demo_np (nat 4) 0 ! 1 else 0))
             (if pressure_applied (rows demo_frame ! 1) = 1
              then drawn_penalty demo_np (nat 4) 0 ! 1 else 0))"
    using yards_rule [OF demo_np_ok demo_create h, unfolded Let_def] by blast
  moreover have c: "completion (rows demo_frame ! 1) = 1" "pressure_applied (rows demo_frame ! 1) = 0"
    by (simp_all add: demo_frame_rows)
  ultimately have "yards_gained (rows demo_frame ! 1) =
         np_around demo_np 1
           (np_sub demo_np
              (np_add demo_np (drawn_base_yards demo_np 4 0 ! 1) (drawn_bonus_yards demo_np 4 0 ! 1)) 0)"
    by (simp add: demo_inputs)
  then show ?thesis using demo_np_ok demo_create h c by simp
qed

text \<open>
  Claim C3 as stated fails: the first play of the four-play table is a sack whose draw
  \<open>-7.96\<close> is stored as \<open>-8.0\<close>, outside \<open>(-8, -3]\<close>.
\<close>

theorem yards_rule_counterexample:
  "create_realistic_nfl_data demo_np 4 0 = (Inr demo_frame, 19)
     \<and> sack (rows demo_frame ! 0) = 1
     \<and> yards_gained (rows demo_frame ! 0) = - 8
     \<and> \<not> (- 8 < yards_gained (rows demo_frame ! 0))"
  by (simp add: demo_create demo_frame_rows)

text \<open>The invariant of claim C4 on the four-play table, before and after the calls of \<open>main\<close>.\<close>

theorem outcome_consistency_witness:
  "np_ok demo_np \<and> create_realistic_nfl_data demo_np 4 0 = (Inr demo_frame, 19)
     \<and> outcome_consistent demo_frame
     \<and> outcome_consistent (exec_ops demo_np main_order demo_frame)"
  using outcome_consistency [OF demo_np_ok demo_create, of TTA main_order] demo_np_ok demo_create
  by simp

text \<open>The shape of claim C8 for four plays.\<close>

theorem create_table_shape_witness:
  "np_ok demo_np \<and> (0::int) \<le> 4
     \<and> (\<exists>d. fst (create_realistic_nfl_data demo_np 4 0) = Inr d \<and> length (rows d) = 4
           \<and> map play_id (rows d) = [1..4])"
  using create_table_shape [OF demo_np_ok, of 4 0] demo_np_ok by auto

section \<open>Facts about the reports\<close>

text \<open>
  Claim C5, as amended. \<open>pressure_impact_summary\<close>, \<open>defensive_alignment_effectiveness\<close>
  and \<open>optimal_pressure_timing\<close> leave \<open>self.data\<close> unchanged. \<open>time_to_throw_analysis\<close>
  leaves the records and the values of all existing columns unchanged and stores one
  column, \<open>time_bucket\<close>, the bucket of each play's \<open>time_to_throw\<close>.
\<close>

theorem report_frame_effect:
  "snd (pressure_impact_summary np d) = d
     \<and> snd (defensive_alignment_effectiveness np d) = d
     \<and> snd (optimal_pressure_timing np d) = d
     \<and> rows (snd (time_to_throw_analysis np d)) = rows d
     \<and> time_bucket (snd (time_to_throw_analysis np d)) =
          Some (map (\<lambda>p. pd_cut time_bins time_labels (time_to_throw p)) (rows d))"
  by (simp add: snd_pressure_impact_summary snd_defensive_alignment_effectiveness
      snd_optimal_pressure_timing snd_time_to_throw_analysis)

text \<open>
  Claim C5 as stated fails: after \<open>time_to_throw_analysis\<close> the four-play table has a
  column \<open>time_bucket\<close> that it did not have before.
\<close>

theorem report_frame_effect_counterexample:
  "time_bucket demo_frame = None
     \<and> time_bucket (snd (time_to_throw_analysis demo_np demo_frame)) =
          Some [Some ''Extended (2.5-3.0s)'', Some ''Extended (2.5-3.0s)'', Some ''Quick (<2.0s)'', None]
     \<and> snd (time_to_throw_analysis demo_np demo_frame) \<noteq> demo_frame"
proof -
  have a: "time_bucket demo_frame = None" by (simp add: demo_frame_rows)
  have b: "time_bucket (snd (time_to_throw_analysis demo_np demo_frame)) =
          Some [Some ''Extended (2.5-3.0s)'', Some ''Extended (2.5-3.0s)'', Some ''Quick (<2.0s)'', None]"
    by (simp add: snd_time_to_throw_analysis demo_frame_rows time_bins_def time_labels_def)
  from a b have "snd (time_to_throw_analysis demo_np demo_frame) \<noteq> demo_frame" by auto
  with a b show ?thesis by blast
qed

lemma sorted_pair_unique:
  assumes "sorted xs" "distinct xs" "set xs = {0, 1::int}"
  shows "xs = [0, 1]"
proof -
  have "sorted [0, 1::int]" "distinct [0, 1::int]" "set xs = set [0, 1::int]"
    using assms by simp_all
  then show ?thesis using assms sorted_distinct_set_unique by blast
qed

lemma group_keys_pressure:
  assumes "set (map pressure_applied rs) = {0, 1}"
  shows "group_keys pressure_applied rs = [0, 1]"
  unfolding group_keys_def
  using assms by (intro sorted_pair_unique) simp_all

lemma pressure_group_stat_nonempty:
  assumes "ps \<noteq> []"
  shows "pressure_group_stat np ps =
     \<lparr>ps_completion = Some (np_around np 3 (np_mean np (map (\<lambda>p. of_int (completion p)) ps))),
      ps_yards = Some (np_around np 3 (np_mean np (map yards_gained ps))),
      ps_sack = Some (np_around np 3 (np_mean np (map (\<lambda>p. of_int (sack p)) ps))),
      ps_interception = Some (np_around np 3 (np_mean np (map (\<lambda>p. of_int (interception p)) ps))),
      ps_plays = length ps\<rparr>"
  using assms by (simp add: pressure_group_stat_def mean_of_def round_opt_def)

lemma gen_pressure_values:
  assumes "np_ok np"
  shows "set (in_pressure_applied (gen_inputs np n g)) \<subseteq> {0, 1}"
proof
  fix v
  assume "v \<in> set (in_pressure_applied (gen_inputs np n g))"
  then obtain i
    where i: "i \<in> set (fst (np_choice np [13 / 20, 7 / 20] n (snd (np_gamma np 2 (5 / 4) n g))))"
      "v = [0, 1] ! i"
    by (auto simp: gen_inputs_def sample_inputs_def choice_def split_def Let_def)
  have "i < 2" using np_ok_choice_range [OF assms _ i(1)] by simp
  then have "i = 0 \<or> i = 1" by arith
  then show "v \<in> {0, 1}" using i(2) by auto
qed

lemma generated_pressure_values:
  assumes "np_ok np" "create_realistic_nfl_data np n g = (Inr d, g')"
  shows "set (map pressure_applied (rows d)) \<subseteq> {0, 1}"
proof
  fix v
  assume "v \<in> set (map pressure_applied (rows d))"
  then obtain i where i: "i < nat n" "v = in_pressure_applied (gen_inputs np (nat n) g) ! i"
    unfolding create_rows(2) [OF assms(2)] by (auto simp: make_play_simps col_inputs_eq)
  have "v \<in> set (in_pressure_applied (gen_inputs np (nat n) g))"
    using i gen_inputs_len(2) [OF assms(1), of "nat n" g] by simp
  then show "v \<in> {0, 1}" using gen_pressure_values [OF assms(1)] by blast
qed

lemma group_keys_single:
  assumes "set (map f xs) \<subseteq> {a}"
  shows "length (group_keys f xs) \<le> 1"
proof -
  have "length (group_keys f xs) = card (set (map f xs))"
    by (simp add: group_keys_def length_remdups_card_conv)
  also have "\<dots> \<le> card {a}" using assms by (intro card_mono) simp_all
  finally show ?thesis by simp
qed

lemma summary_needs_two_groups:
  "length (group_keys pressure_applied (rows d)) \<noteq> 2 \<Longrightarrow>
     fst (pressure_impact_summary np d) = Inl ValueError"
  by (simp add: pressure_impact_summary_def Let_def)

lemma summary_one_group:
  assumes "set (map pressure_applied (rows d)) \<subseteq> {0, 1}"
    and "filter (\<lambda>p. pressure_applied p = 0) (rows d) = []
       \<or> filter (\<lambda>p. pressure_applied p = 1) (rows d) = []"
  shows "fst (pressure_impact_summary np d) = Inl ValueError"
proof -
  have "set (map pressure_applied (rows d)) \<subseteq> {1} \<or> set (map pressure_applied (rows d)) \<subseteq> {0}"
    using assms by (auto simp: filter_empty_conv)
  then have "length (group_keys pressure_applied (rows d)) \<le> 1"
    using group_keys_single [of pressure_applied "rows d"] by blast
  then show ?thesis by (intro summary_needs_two_groups) simp
qed

lemma summary_two_groups:
  assumes "set (map pressure_applied (rows d)) = {0, 1}"
  shows "fst (pressure_impact_summary np d) =
     Inr [(''No Pressure'', pressure_group_stat np (filter (\<lambda>p. pressure_applied p = 0) (rows d))),
          (''Pressure Applied'', pressure_group_stat np (filter (\<lambda>p. pressure_applied p = 1) (rows d)))]"
  by (simp add: pressure_impact_summary_def Let_def group_keys_pressure [OF assms])

lemma filter_value_nonempty: "v \<in> set (map f xs) \<Longrightarrow> filter (\<lambda>p. f p = v) xs \<noteq> []"
  by (auto simp: filter_empty_conv)

lemma two_groups_cover:
  assumes "set (map pressure_applied rs) = {0, 1}"
  shows "length (filter (\<lambda>p. pressure_applied p = 0) rs)
           + length (filter (\<lambda>p. pressure_applied p = 1) rs) = length rs"
proof -
  have "pressure_applied p = 1 \<longleftrightarrow> \<not> pressure_applied p = 0" if "p \<in> set rs" for p
    using assms that by force
  then have "filter (\<lambda>p. pressure_applied p = 1) rs = filter (\<lambda>p. \<not> pressure_applied p = 0) rs"
    by (intro filter_cong) auto
  then show ?thesis using sum_length_filter_compl [of "\<lambda>p. pressure_applied p = 0" rs] by simp
qed

text \<open>
  Claim C7, as amended. On a generated table in which both pressure values occur,
  \<open>pressure_impact_summary\<close> returns exactly two rows, for \<open>pressure_applied = 0\<close> and
  \<open>pressure_applied = 1\<close>, each holding what \<open>round(3)\<close> makes of the means of
  \<open>completion\<close>, \<open>yards_gained\<close>, \<open>sack\<close> and \<open>interception\<close> over the group, and the
  number of plays of the group; the two counts add up to the number of plays. On a
  generated table in which one of the two values does not occur, line 151 raises
  \<open>ValueError\<close>.
\<close>

theorem pressure_summary:
  assumes "np_ok np" "create_realistic_nfl_data np n g = (Inr d, g')"
  shows "let g0 = filter (\<lambda>p. pressure_applied p = 0) (rows d);
             g1 = filter (\<lambda>p. pressure_applied p = 1) (rows d);
             stat = (\<lambda>ps.
               \<lparr>ps_completion = Some (np_around np 3 (np_mean np (map (\<lambda>p. of_int (completion p)) ps))),
                ps_yards = Some (np_around np 3 (np_mean np (map yards_gained ps))),
                ps_sack = Some (np_around np 3 (np_mean np (map (\<lambda>p. of_int (sack p)) ps))),
                ps_interception = Some (np_around np 3 (np_mean np (map (\<lambda>p. of_int (interception p)) ps))),
                ps_plays = length ps\<rparr>)
         in (g0 \<noteq> [] \<and> g1 \<noteq> [] \<longrightarrow>
               fst (pressure_impact_summary np d) =
                 Inr [(''No Pressure'', stat g0), (''Pressure Applied'', stat g1)]
               \<and> length g0 + length g1 = length (rows d))
            \<and> (g0 = [] \<or> g1 = [] \<longrightarrow> fst (pressure_impact_summary np d) = Inl ValueError)"
proof -
  let ?g0 = "filter (\<lambda>p. pressure_applied p = 0) (rows d)"
  let ?g1 = "filter (\<lambda>p. pressure_applied p = 1) (rows d)"
  note v = generated_pressure_values [OF assms]
  have a: "fst (pressure_impact_summary np d) =
             Inr [(''No Pressure'', pressure_group_stat np ?g0),
                  (''Pressure Applied'', pressure_group_stat np ?g1)]
           \<and> length ?g0 + length ?g1 = length (rows d)"
    if n: "?g0 \<noteq> []" "?g1 \<noteq> []"
  proof -
    have "0 \<in> set (map pressure_applied (rows d))" "1 \<in> set (map pressure_applied (rows d))"
      using n by (auto simp: filter_empty_conv)
    then have s: "set (map pressure_applied (rows d)) = {0, 1}" using v by blast
    show ?thesis using summary_two_groups [OF s] two_groups_cover [OF s] by simp
  qed
  have b: "fst (pressure_impact_summary np d) = Inl ValueError" if "?g0 = [] \<or> ?g1 = []"
    using summary_one_group [OF v that] .
  show ?thesis
    unfolding Let_def
    using a b pressure_group_stat_nonempty [of ?g0 np] pressure_group_stat_nonempty [of ?g1 np]
    by auto
qed

text \<open>The summary of claim C7 for the four-play table.\<close>

theorem pressure_summary_witness:
  "np_ok demo_np \<and> create_realistic_nfl_data demo_np 4 0 = (Inr demo_frame, 19)
     \<and> filter (\<lambda>p. pressure_applied p = 0) (rows demo_frame) \<noteq> []
     \<and> filter (\<lambda>p. pressure_applied p = 1) (rows demo_frame) \<noteq> []
     \<and> fst (pressure_impact_summary demo_np demo_frame) =
         Inr [(''No Pressure'',
               \<lparr>ps_completion = Some (1 / 2), ps_yards = Some 2, ps_sack = Some 0,
                  ps_interception = Some 0, ps_plays = 2\<rparr>),
              (''Pressure Applied'',
               \<lparr>ps_completion = Some (1 / 2), ps_yards = Some (- (29 / 10)), ps_sack = Some (1 / 2),
                  ps_interception = Some 0, ps_plays = 2\<rparr>)]"
proof -
  let ?g0 = "filter (\<lambda>p. pressure_applied p = 0) (rows demo_frame)"
  let ?g1 = "filter (\<lambda>p. pressure_applied p = 1) (rows demo_frame)"
  let ?stat = "\<lambda>ps.
       \<lparr>ps_completion = Some (np_around demo_np 3 (np_mean demo_np (map (\<lambda>p. of_int (completion p)) ps))),
        ps_yards = Some (np_around demo_np 3 (np_mean demo_np (map yards_gained ps))),
        ps_sack = Some (np_around demo_np 3 (np_mean demo_np (map (\<lambda>p. of_int (sack p)) ps))),
        ps_interception = Some (np_around demo_np 3 (np_mean demo_np (map (\<lambda>p. of_int (interception p)) ps))),
        ps_plays = length ps\<rparr>"
  have h: "?g0 \<noteq> []" "?g1 \<noteq> []"
    by (simp_all add: demo_frame_rows)
  have "?g0 \<noteq> [] \<and> ?g1 \<noteq> [] \<longrightarrow>
      fst (pressure_impact_summary demo_np demo_frame) =
        Inr [(''No Pressure'', ?stat ?g0), (''Pressure Applied'', ?stat ?g1)]"
    using pressure_summary [OF demo_np_ok demo_create, unfolded Let_def] by blast
  moreover have "?stat ?g0 =
       \<lparr>ps_completion = Some (1 / 2), ps_yards = Some 2, ps_sack = Some 0,
                  ps_interception = Some 0, ps_plays = 2\<rparr>"
    by code_simp
  moreover have "?stat ?g1 =
       \<lparr>ps_completion = Some (1 / 2), ps_yards = Some (- (29 / 10)), ps_sack = Some (1 / 2),
                  ps_interception = Some 0, ps_plays = 2\<rparr>"
    by code_simp
  ultimately show ?thesis using h demo_np_ok demo_create by simp
qed

lemma demo_single_rows:
  "demo_single =
    \<lparr>rows =
        [\<lparr>play_id = 1, time_to_throw = 3, pressure_applied = 1,
            time_to_pressure = 2, down = 4, distance = 1,
            field_position = 55 / 2, score_diff = - (5 / 2), quarter = 4,
            def_alignment = ''Dime'', rushers = 4, completion = 0,
            yards_gained = - 8, sack = 1, interception = 0\<rparr>],
        time_bucket = None\<rparr>"
  by code_simp

lemma demo_single_create: "create_realistic_nfl_data demo_np 1 0 = (Inr demo_single, 19)"
  by code_simp

text \<open>
  Claim C7 as stated fails: the table generated for a single play has one group only, and
  \<open>pressure_impact_summary\<close> raises \<open>ValueError\<close> on it.
\<close>

theorem pressure_summary_counterexample:
  "create_realistic_nfl_data demo_np 1 0 = (Inr demo_single, 19)
     \<and> map pressure_applied (rows demo_single) = [1]
     \<and> fst (pressure_impact_summary demo_np demo_single) = Inl ValueError"
proof -
  have "map pressure_applied (rows demo_single) = [1]"
    by (simp add: demo_single_rows)
  moreover have "fst (pressure_impact_summary demo_np demo_single) = Inl ValueError"
    by (simp add: pressure_impact_summary_def group_keys_def demo_single_rows)
  ultimately show ?thesis using demo_single_create by simp
qed

lemma time_bucket_cases:
  "pd_cut time_bins time_labels t =
     (if 0 < t \<and> t \<le> 2 then Some ''Quick (<2.0s)''
      else if 2 < t \<and> t \<le> 5 / 2 then Some ''Normal (2.0-2.5s)''
      else if 5 / 2 < t \<and> t \<le> 3 then Some ''Extended (2.5-3.0s)''
      else if 3 < t \<and> t \<le> 10 then Some ''Very Long (>3.0s)''
      else None)"
  by (simp add: time_bins_def time_labels_def)

lemma timing_bucket_cases:
  "pd_cut timing_bins timing_labels t =
     (if 0 < t \<and> t \<le> 3 / 2 then Some ''Immediate (<1.5s)''
      else if 3 / 2 < t \<and> t \<le> 5 / 2 then Some ''Quick (1.5-2.5s)''
      else if 5 / 2 < t \<and> t \<le> 7 / 2 then Some ''Delayed (2.5-3.5s)''
      else if 7 / 2 < t \<and> t \<le> 10 then Some ''Late (>3.5s)''
      else None)"
  by (simp add: timing_bins_def timing_labels_def)

lemma time_bucket_in_labels:
  "pd_cut time_bins time_labels t \<in> Some ` set time_labels \<longleftrightarrow> 0 < t \<and> t \<le> 10"
  unfolding time_bucket_cases by (auto simp: time_labels_def)

lemma timing_bucket_in_labels:
  "pd_cut timing_bins timing_labels t \<in> Some ` set timing_labels \<longleftrightarrow> 0 < t \<and> t \<le> 10"
  unfolding timing_bucket_cases by (auto simp: timing_labels_def)

lemma sum_indicator:
  "distinct ks \<Longrightarrow> sum_list (map (\<lambda>k. if a = k then (1::nat) else 0) ks) = (if a \<in> set ks then 1 else 0)"
  by (induction ks) auto

lemma count_by_key:
  assumes "distinct ks"
  shows "sum_list (map (\<lambda>k. length (filter (\<lambda>p. A p \<and> h p = k) xs)) ks) =
           length (filter (\<lambda>p. A p \<and> h p \<in> set ks) xs)"
proof (induction xs)
  case Nil
  show ?case by simp
next
  case (Cons x xs)
  have "sum_list (map (\<lambda>k. length (filter (\<lambda>p. A p \<and> h p = k) (x # xs))) ks) =
        sum_list (map (\<lambda>k. (if A x \<and> h x = k then 1 else 0)
                           + length (filter (\<lambda>p. A p \<and> h p = k) xs)) ks)"
    by (intro arg_cong [where f = sum_list] map_cong) auto
  also have "\<dots> = sum_list (map (\<lambda>k. if A x \<and> h x = k then 1 else 0) ks)
                  + sum_list (map (\<lambda>k. length (filter (\<lambda>p. A p \<and> h p = k) xs)) ks)"
    by (simp add: sum_list_addf)
  also have "sum_list (map (\<lambda>k. if A x \<and> h x = k then (1::nat) else 0) ks) =
              (if A x \<and> h x \<in> set ks then 1 else 0)"
    using sum_indicator [OF assms, of "h x"] by (cases "A x") simp_all
  finally show ?case using Cons.IH by simp
qed

lemma bucket_group_length:
  "length (bucket_group rs (map f rs) b k) =
     length (filter (\<lambda>p. f p = Some b \<and> pressure_applied p = k) rs)"
  unfolding bucket_group_def
  by (induction rs) auto

lemma time_labels_distinct: "distinct time_labels"
  by (simp add: time_labels_def)

lemma timing_labels_distinct: "distinct timing_labels"
  by (simp add: timing_labels_def)

lemma group_keys_distinct: "distinct (group_keys f xs)"
  by (simp add: group_keys_def)

lemma group_keys_set: "set (group_keys f xs) = f ` set xs"
  by (simp add: group_keys_def)

lemma sum_list_of_concat: "sum_list (concat xss) = sum_list (map sum_list xss)" for xss :: "nat list list"
  by (induction xss) simp_all

lemma bucket_counts_total:
  "sum_list (map (\<lambda>(k, ps). length ps) (bucket_groups rs (map f rs))) =
     length (filter (\<lambda>p. f p \<in> Some ` set time_labels) rs)"
proof -
  have inner: "sum_list (map (\<lambda>k. length (bucket_group rs (map f rs) b k)) (group_keys pressure_applied rs)) =
        length (filter (\<lambda>p. f p = Some b) rs)" for b
  proof -
    have "sum_list (map (\<lambda>k. length (bucket_group rs (map f rs) b k)) (group_keys pressure_applied rs)) =
        length (filter (\<lambda>p. f p = Some b \<and> pressure_applied p \<in> set (group_keys pressure_applied rs)) rs)"
      unfolding bucket_group_length
      using count_by_key [OF group_keys_distinct, of "\<lambda>p. f p = Some b" pressure_applied rs pressure_applied rs] .
    also have "\<dots> = length (filter (\<lambda>p. f p = Some b) rs)"
      by (intro arg_cong [where f = length] filter_cong) (auto simp: group_keys_set)
    finally show ?thesis .
  qed
  have "sum_list (map (\<lambda>(k, ps). length ps) (bucket_groups rs (map f rs))) =
        sum_list (map (\<lambda>b. sum_list (map (\<lambda>k. length (bucket_group rs (map f rs) b k))
                                      (group_keys pressure_applied rs))) time_labels)"
    by (simp add: bucket_groups_def map_concat sum_list_of_concat comp_def)
  also have "\<dots> = sum_list (map (\<lambda>b. length (filter (\<lambda>p. True \<and> f p = Some b) rs)) time_labels)"
    by (simp add: inner)
  also have "\<dots> = sum_list (map (\<lambda>k. length (filter (\<lambda>p. True \<and> f p = k) rs)) (map Some time_labels))"
    by (simp add: comp_def)
  also have "\<dots> = length (filter (\<lambda>p. True \<and> f p \<in> set (map Some time_labels)) rs)"
    by (intro count_by_key) (simp add: distinct_map time_labels_distinct)
  finally show ?thesis by simp
qed

lemma time_stats_counts:
  "\<exists>st. fst (time_to_throw_analysis np d) = Inr st
      \<and> sum_list (map (\<lambda>(k, s). ts_plays s) st) =
          length (filter (\<lambda>p. 0 < time_to_throw p \<and> time_to_throw p \<le> 10) (rows d))"
proof -
  let ?f = "\<lambda>p. pd_cut time_bins time_labels (time_to_throw p)"
  have "sum_list (map (\<lambda>(k, s). ts_plays s)
          (map (\<lambda>(k, ps). (k, time_group_stat np ps)) (bucket_groups (rows d) (map ?f (rows d))))) =
        sum_list (map (\<lambda>(k, ps). length ps) (bucket_groups (rows d) (map ?f (rows d))))"
    by (simp add: comp_def split_def time_group_stat_def)
  also have "\<dots> = length (filter (\<lambda>p. 0 < time_to_throw p \<and> time_to_throw p \<le> 10) (rows d))"
    unfolding bucket_counts_total by (simp add: time_bucket_in_labels)
  finally show ?thesis by (simp add: time_to_throw_analysis_def Let_def)
qed

lemma timing_stats_counts:
  "\<exists>st. fst (optimal_pressure_timing np d) = Inr st
      \<and> sum_list (map (\<lambda>(k, s). tm_plays s) st) =
          length (filter (\<lambda>p. 0 < time_to_pressure p \<and> time_to_pressure p \<le> 10) (pressure_plays d))"
proof -
  let ?f = "\<lambda>p. pd_cut timing_bins timing_labels (time_to_pressure p)"
  let ?pp = "pressure_plays d"
  have "sum_list (map (\<lambda>(k, s). tm_plays s)
          (map (\<lambda>l. (l, timing_group_stat np (timing_group timing_labels ?pp l))) timing_labels)) =
        sum_list (map (\<lambda>l. length (filter (\<lambda>p. True \<and> ?f p = Some l) ?pp)) timing_labels)"
    by (simp add: comp_def timing_group_stat_def timing_group_def)
  also have "\<dots> = sum_list (map (\<lambda>k. length (filter (\<lambda>p. True \<and> ?f p = k) ?pp)) (map Some timing_labels))"
    by (simp add: comp_def)
  also have "\<dots> = length (filter (\<lambda>p. True \<and> ?f p \<in> set (map Some timing_labels)) ?pp)"
    by (intro count_by_key) (simp add: distinct_map timing_labels_distinct)
  also have "\<dots> = length (filter (\<lambda>p. 0 < time_to_pressure p \<and> time_to_pressure p \<le> 10) ?pp)"
    by (simp add: timing_bucket_in_labels)
  finally show ?thesis by (simp add: optimal_pressure_timing_def Let_def)
qed

lemma filter_drops: "x \<in> set xs \<Longrightarrow> \<not> P x \<Longrightarrow> length (filter P xs) < length xs"
  by (induction xs) (auto simp: less_Suc_eq_le)

text \<open>
  Claim C10. A \<open>time_to_throw\<close> (a \<open>time_to_pressure\<close>) above 10 falls into no bucket.
  The counts of \<open>time_to_throw_analysis\<close> (of \<open>optimal_pressure_timing\<close>) add up to the
  number of plays (of pressure plays) whose time lies in \<open>(0, 10]\<close>, so as soon as one
  play has a time above 10 they add up to less than the number of plays considered.
\<close>

theorem bucketing_partial:
  "(10 < t \<longrightarrow> pd_cut time_bins time_labels t = None \<and> pd_cut timing_bins timing_labels t = None)
   \<and> (\<exists>st. fst (time_to_throw_analysis np d) = Inr st
         \<and> sum_list (map (\<lambda>(k, s). ts_plays s) st) =
             length (filter (\<lambda>p. 0 < time_to_throw p \<and> time_to_throw p \<le> 10) (rows d))
         \<and> ((\<exists>p \<in> set (rows d). 10 < time_to_throw p) \<longrightarrow>
               sum_list (map (\<lambda>(k, s). ts_plays s) st) < length (rows d)))
   \<and> (\<exists>st. fst (optimal_pressure_timing np d) = Inr st
         \<and> sum_list (map (\<lambda>(k, s). tm_plays s) st) =
             length (filter (\<lambda>p. 0 < time_to_pressure p \<and> time_to_pressure p \<le> 10) (pressure_plays d))
         \<and> ((\<exists>p \<in> set (pressure_plays d). 10 < time_to_pressure p) \<longrightarrow>
               sum_list (map (\<lambda>(k, s). tm_plays s) st) < length (pressure_plays d)))"
proof -
  have a: "10 < t \<longrightarrow> pd_cut time_bins time_labels t = None \<and> pd_cut timing_bins timing_labels t = None"
    by (simp add: time_bucket_cases timing_bucket_cases)
  have b: "(\<exists>p \<in> set xs. 10 < (h p :: rat)) \<longrightarrow>
      length (filter (\<lambda>p. 0 < h p \<and> h p \<le> 10) xs) < length xs" for xs :: "play list" and h
    using filter_drops [of _ xs "\<lambda>p. 0 < h p \<and> h p \<le> 10"] by auto
  show ?thesis
    using a time_stats_counts [of np d] timing_stats_counts [of np d]
      b [of "rows d" time_to_throw] b [of "pressure_plays d" time_to_pressure]
    by auto
qed

text \<open>Claim C10 on the four-play table, which has such a play in both analyses.\<close>

theorem bucketing_partial_witness:
  "(10::rat) < 12 \<and> pd_cut time_bins time_labels 12 = (None :: string option)
     \<and> (\<exists>p \<in> set (rows demo_frame). 10 < time_to_throw p)
     \<and> (\<exists>st. fst (time_to_throw_analysis demo_np demo_frame) = Inr st
           \<and> sum_list (map (\<lambda>(k, s). ts_plays s) st) < length (rows demo_frame))
     \<and> (\<exists>p \<in> set (pressure_plays demo_frame). 10 < time_to_pressure p)
     \<and> (\<exists>st. fst (optimal_pressure_timing demo_np demo_frame) = Inr st
           \<and> sum_list (map (\<lambda>(k, s). tm_plays s) st) < length (pressure_plays demo_frame))"
proof -
  have a: "\<exists>p \<in> set (rows demo_frame). 10 < time_to_throw p"
    by (simp add: demo_frame_rows)
  have b: "\<exists>p \<in> set (pressure_plays demo_frame). 10 < time_to_pressure p"
    by (simp add: demo_frame_rows pressure_plays_def)
  show ?thesis
    using bucketing_partial [of 12 demo_np demo_frame] a b by auto
qed

lemma stored_buckets_simps:
  "rows (stored_buckets d) = rows d"
  "stored_buckets (stored_buckets d) = stored_buckets d"
  by (simp_all add: stored_buckets_def)

lemma snd_run_op_stored: "snd (run_op np op d) = (if op = TTA then stored_buckets d else d)"
  by (simp add: snd_run_op stored_buckets_def)

lemma exec_ops_state: "exec_ops np ops d = (if TTA \<in> set ops then stored_buckets d else d)"
proof (induction ops arbitrary: d)
  case Nil
  show ?case by simp
next
  case (Cons x xs)
  show ?case by (simp add: Cons.IH snd_run_op_stored stored_buckets_simps)
qed

lemma fst_run_op_stored: "op \<noteq> VIS \<Longrightarrow> fst (run_op np op (stored_buckets d)) = fst (run_op np op d)"
  by (cases op)
     (simp_all add: tagged_def stored_buckets_def pressure_impact_summary_def
       time_to_throw_analysis_def defensive_alignment_effectiveness_def
       optimal_pressure_timing_def pressure_plays_def Let_def)

lemma outcome_in_first:
  "op \<notin> set pre \<Longrightarrow> outcome_in np (pre @ op # post) d op = Some (fst (run_op np op (exec_ops np pre d)))"
  by (induction pre arbitrary: d) auto

lemma outcome_in_report:
  assumes "op \<in> set ops" "op \<noteq> VIS"
  shows "outcome_in np ops d op = Some (fst (run_op np op d))"
proof -
  obtain pre post where s: "ops = pre @ op # post" "op \<notin> set pre"
    using split_list_first [OF assms(1)] by blast
  show ?thesis
    unfolding s(1) outcome_in_first [OF s(2)] exec_ops_state
    using assms(2) by (simp add: fst_run_op_stored)
qed

lemma report_succeeds:
  assumes "set (map pressure_applied (rows d)) = {0, 1}" "op \<noteq> VIS"
  shows "\<exists>r. fst (run_op np op d) = Inr r"
  using assms(2) group_keys_pressure [OF assms(1)]
  by (cases op)
     (simp_all add: tagged_def pressure_impact_summary_def time_to_throw_analysis_def
       defensive_alignment_effectiveness_def optimal_pressure_timing_def Let_def)

lemma bars_drawn:
  assumes "set (map pressure_applied (rows d)) = {0, 1}"
  shows "bar2 (pressure_means np f d) = Inr (pressure_means np f d)"
  using group_keys_pressure [OF assms] by (simp add: bar2_def pressure_means_def)

lemma vis_without_buckets:
  assumes "set (map pressure_applied (rows d)) = {0, 1}" "time_bucket d = None"
  shows "fst (run_op np VIS d) = Inl (if length (rows d) = 2 then ValueError else KeyError)"
  using assms(2) by (simp add: tagged_def create_visualizations_def bars_drawn [OF assms(1)])

lemma pressure_plays_nonempty:
  assumes "set (map pressure_applied (rows d)) = {0, 1}"
  shows "pressure_plays d \<noteq> []"
  using filter_value_nonempty [of 1 pressure_applied "rows d"] assms
  by (simp add: pressure_plays_def)

lemma vis_with_buckets:
  assumes "set (map pressure_applied (rows d)) = {0, 1}"
  shows "savefig_ok np \<Longrightarrow> \<exists>fig. fst (run_op np VIS (stored_buckets d)) = Inr (Figure fig)"
    and "\<not> savefig_ok np \<Longrightarrow> fst (run_op np VIS (stored_buckets d)) = Inl FileNotFoundError"
proof -
  have s: "set (map pressure_applied (rows (stored_buckets d))) = {0, 1}"
    using assms by (simp add: stored_buckets_simps)
  have t: "time_bucket (stored_buckets d) \<noteq> None"
    by (simp add: stored_buckets_def)
  note p = pressure_plays_nonempty [OF s]
  show "\<exists>fig. fst (run_op np VIS (stored_buckets d)) = Inr (Figure fig)" if "savefig_ok np"
    using that t p by (auto simp: tagged_def create_visualizations_def bars_drawn [OF s])
  show "fst (run_op np VIS (stored_buckets d)) = Inl FileNotFoundError" if "\<not> savefig_ok np"
    using that t p by (auto simp: tagged_def create_visualizations_def bars_drawn [OF s])
qed

lemma main_order_vis: "outcome_in np main_order d VIS = Some (fst (run_op np VIS (stored_buckets d)))"
proof -
  have "main_order = [PIS, TTA, DAE, OPT] @ VIS # [INS]" by (simp add: main_order_def)
  then show ?thesis
    using outcome_in_first [of VIS "[PIS, TTA, DAE, OPT]" np "[INS]" d]
    by (simp add: exec_ops_state)
qed

text \<open>
  Claim C6, as amended. On a table with no \<open>time_bucket\<close> column yet and both pressure
  values present, \<open>pressure_impact_summary\<close>, \<open>time_to_throw_analysis\<close>,
  \<open>defensive_alignment_effectiveness\<close>, \<open>optimal_pressure_timing\<close> and
  \<open>generate_insights\<close> succeed in any order of calls and each returns what it returns in
  the order of \<open>main\<close>. \<open>create_visualizations\<close> depends on \<open>time_to_throw_analysis\<close>:
  called after it, it does what it does in the order of \<open>main\<close>, which is to return the
  figure when the figure can be written to the directory of line 330 and to raise
  \<open>FileNotFoundError\<close> when it cannot; called before it, it raises \<open>KeyError\<close>, or
  \<open>ValueError\<close> when the table has exactly two plays.
\<close>

theorem report_independence:
  assumes "set (map pressure_applied (rows d)) = {0, 1}" "time_bucket d = None"
  shows "(op \<in> set ops \<and> op \<noteq> VIS \<longrightarrow>
            outcome_in np ops d op = Some (fst (run_op np op d))
            \<and> outcome_in np main_order d op = Some (fst (run_op np op d))
            \<and> (\<exists>r. fst (run_op np op d) = Inr r))
       \<and> (VIS \<notin> set pre \<and> TTA \<in> set pre \<longrightarrow>
            outcome_in np (pre @ VIS # post) d VIS = outcome_in np main_order d VIS
            \<and> (savefig_ok np \<longrightarrow> (\<exists>fig. outcome_in np main_order d VIS = Some (Inr (Figure fig))))
            \<and> (\<not> savefig_ok np \<longrightarrow> outcome_in np main_order d VIS = Some (Inl FileNotFoundError)))
       \<and> (VIS \<notin> set pre \<and> TTA \<notin> set pre \<longrightarrow>
            outcome_in np (pre @ VIS # post) d VIS =
              Some (Inl (if length (rows d) = 2 then ValueError else KeyError)))"
proof -
  have m: "op \<noteq> VIS \<Longrightarrow> op \<in> set main_order"
    by (cases op) (simp_all add: main_order_def)
  have a: "op \<in> set ops \<and> op \<noteq> VIS \<longrightarrow>
            outcome_in np ops d op = Some (fst (run_op np op d))
            \<and> outcome_in np main_order d op = Some (fst (run_op np op d))
            \<and> (\<exists>r. fst (run_op np op d) = Inr r)"
    using outcome_in_report [of op ops np d] outcome_in_report [of op main_order np d] m
      report_succeeds [OF assms(1), of op np] by blast
  have b: "VIS \<notin> set pre \<and> TTA \<in> set pre \<longrightarrow>
            outcome_in np (pre @ VIS # post) d VIS = outcome_in np main_order d VIS
            \<and> (savefig_ok np \<longrightarrow> (\<exists>fig. outcome_in np main_order d VIS = Some (Inr (Figure fig))))
            \<and> (\<not> savefig_ok np \<longrightarrow> outcome_in np main_order d VIS = Some (Inl FileNotFoundError))"
    using vis_with_buckets [OF assms(1), of np]
    by (simp add: outcome_in_first exec_ops_state main_order_vis)
  have c: "VIS \<notin> set pre \<and> TTA \<notin> set pre \<longrightarrow>
            outcome_in np (pre @ VIS # post) d VIS =
              Some (Inl (if length (rows d) = 2 then ValueError else KeyError))"
    using vis_without_buckets [OF assms, of np]
    by (simp add: outcome_in_first exec_ops_state)
  show ?thesis using a b c by blast
qed

lemma demo_pressure_values: "set (map pressure_applied (rows demo_frame)) = {0, 1}"
  by (auto simp: demo_frame_rows)

lemma demo_no_buckets: "time_bucket demo_frame = None"
  by (simp add: demo_frame_rows)

text \<open>
  Claim C6 as stated fails: called first on the four-play table, \<open>create_visualizations\<close>
  raises \<open>KeyError\<close>, while in the order of \<open>main\<close> it returns a figure.
\<close>

theorem report_independence_counterexample:
  "outcome_in demo_np [VIS, PIS, TTA, DAE, OPT] demo_frame VIS = Some (Inl KeyError)
     \<and> outcome_in demo_np main_order demo_frame VIS \<noteq> Some (Inl KeyError)
     \<and> outcome_in demo_np [VIS, PIS, TTA, DAE, OPT] demo_frame VIS \<noteq> outcome_in demo_np main_order demo_frame VIS"
proof -
  have l: "length (rows demo_frame) \<noteq> 2" by (simp add: demo_frame_rows)
  have a: "outcome_in demo_np [VIS, PIS, TTA, DAE, OPT] demo_frame VIS = Some (Inl KeyError)"
    using vis_without_buckets [OF demo_pressure_values demo_no_buckets, of demo_np] l by simp
  have "savefig_ok demo_np" by (simp add: demo_np_def)
  then obtain fig where "outcome_in demo_np main_order demo_frame VIS = Some (Inr (Figure fig))"
    using vis_with_buckets(1) [OF demo_pressure_values, of demo_np] by (auto simp: main_order_vis)
  then show ?thesis using a by simp
qed

text \<open>Claim C6 as amended on the four-play table, for three orders of calls.\<close>

theorem report_independence_witness:
  "set (map pressure_applied (rows demo_frame)) = {0, 1} \<and> time_bucket demo_frame = None
     \<and> OPT \<in> set [OPT, VIS, DAE, TTA, PIS]
     \<and> outcome_in demo_np [OPT, VIS, DAE, TTA, PIS] demo_frame OPT = outcome_in demo_np main_order demo_frame OPT
     \<and> savefig_ok demo_np
     \<and> outcome_in demo_np ([DAE, TTA] @ VIS # [PIS, OPT]) demo_frame VIS = outcome_in demo_np main_order demo_frame VIS
     \<and> (\<exists>fig. outcome_in demo_np main_order demo_frame VIS = Some (Inr (Figure fig)))
     \<and> outcome_in demo_np ([DAE] @ VIS # [TTA, PIS, OPT]) demo_frame VIS = Some (Inl KeyError)"
proof -
  note t = report_independence [OF demo_pressure_values demo_no_buckets]
  have l: "length (rows demo_frame) \<noteq> 2" by (simp add: demo_frame_rows)
  have s: "savefig_ok demo_np" by (simp add: demo_np_def)
  have "outcome_in demo_np [OPT, VIS, DAE, TTA, PIS] demo_frame OPT = outcome_in demo_np main_order demo_frame OPT"
    using t [of OPT "[OPT, VIS, DAE, TTA, PIS]" demo_np "[]" "[]"] by simp
  moreover have "outcome_in demo_np ([DAE, TTA] @ VIS # [PIS, OPT]) demo_frame VIS = outcome_in demo_np main_order demo_frame VIS
      \<and> (\<exists>fig. outcome_in demo_np main_order demo_frame VIS = Some (Inr (Figure fig)))"
    using t [of OPT "[]" demo_np "[DAE, TTA]" "[PIS, OPT]"] s by simp
  moreover have "outcome_in demo_np ([DAE] @ VIS # [TTA, PIS, OPT]) demo_frame VIS = Some (Inl KeyError)"
    using t [of OPT "[]" demo_np "[DAE]" "[TTA, PIS, OPT]"] l by simp
  ultimately show ?thesis using demo_pressure_values demo_no_buckets s by simp
qed

section \<open>Determinism\<close>

text \<open>
  Claim C9. Generation is deterministic across runs: \<open>__init__\<close> seeds the generator
  with 42 before it generates, so the table does not depend on the state the generator
  was in before, and constructing the analysis a second time, from the state the first
  construction left, gives the same table.
\<close>

theorem init_deterministic:
  "fst (nfl_init np g1) = fst (nfl_init np g2)
     \<and> fst (nfl_init np (snd (nfl_init np g1))) = fst (nfl_init np g1)"
  by (simp add: nfl_init_def)

end
